theory Spec2Isabelle
  imports Complex_Main
begin


section \<open>Data model of the REST client (\<open>frontend/src/api.ts\<close>)\<close>

text \<open>
  The TypeScript string-literal unions become datatypes and the interfaces become
  records.  A field that is optional or nullable in the source (\<open>?:\<close>, \<open>| null\<close>)
  is an \<open>option\<close>; \<open>undefined\<close> and \<open>null\<close> are both \<open>None\<close>, which is how the code
  under study treats them (\<open>Boolean(x)\<close>, \<open>x ?? y\<close>).  A JavaScript \<open>number\<close> that
  carries a quantity is a \<open>real\<close>: the finite doubles are a subset of the reals.
  Time stamps are the ISO strings of the wire format.  Record fields carry a
  short prefix of their record because several interfaces share the names
  \<open>id\<close>, \<open>status\<close>, \<open>tier\<close> and \<open>request_id\<close>; fields that no modelled function
  reads are left out.
\<close>

datatype MiniaturizationStatus = draft | awaiting_approval | approved | rejected | completed

datatype MiniaturizationStage =
    stage_signup
  | stage_verified
  | stage_request_submitted
  | stage_payment_captured
  | stage_assessment_complete
  | stage_awaiting_procedure
  | stage_miniaturized

datatype UserStatus = pending_verification | verified

datatype InsuranceTier = basic | plus_tier | premium | ultra

datatype PolicyStatus = active | cancelled | scheduled

datatype ActivationMode = immediate | scheduled_mode

record BodyProfile =
  height_cm :: real
  weight_kg :: "real option"
  blood_type :: "string option"

record UserRecord =
  usr_id :: string
  usr_email :: string
  body_profile :: "BodyProfile option"
  usr_status :: UserStatus
  current_stage :: MiniaturizationStage

record MiniaturizationRequestRecord =
  req_id :: string
  req_user_id :: string
  req_scale :: real
  req_cost_usd :: real
  req_status :: MiniaturizationStatus

record PaymentRecord =
  pay_id :: string
  pay_request_id :: string
  pay_amount_usd :: real

record DNATokenRecord =
  dna_id :: string
  dna_user_id :: string

record MiniaturizationTokenRecord =
  mtok_id :: string
  mtok_request_id :: string
  mtok_status :: MiniaturizationStatus

record InsurancePolicyRecord =
  pol_id :: string
  pol_user_id :: string
  pol_request_id :: string
  pol_tier :: InsuranceTier
  pol_points_redeemed :: real
  pol_monthly_premium :: real
  pol_final_premium :: real
  pol_status :: PolicyStatus
  pol_created_at :: string
  pol_next_billing_at :: string
  pol_effective_at :: string

record InsurancePolicyQuote =
  q_tier :: InsuranceTier
  q_steps :: int
  q_base_rate_per_step :: real
  q_bucket_multiplier :: real
  q_monthly_premium :: real
  q_final_premium :: real
  q_points_redeemed :: real
  q_discount_value_usd :: real
  q_points_available :: real

record UserOverview =
  user :: UserRecord
  requests :: "MiniaturizationRequestRecord list"
  payments :: "PaymentRecord list"
  dna_tokens :: "DNATokenRecord list"
  miniaturization_tokens :: "MiniaturizationTokenRecord list"
  insurance_policies :: "InsurancePolicyRecord list"


section \<open>Journey stage resolver (\<open>resolveJourneyStep\<close>)\<close>

datatype JourneyStep =
    signup
  | verify
  | intake
  | mini
  | payment
  | assessment
  | token
  | complete_step

text \<open>
  \<open>Boolean(user.body_profile)\<close> is true exactly for a present object, and
  \<open>xs.length > 0\<close> is written as in the source.  The step \<open>"complete"\<close> is
  \<open>complete_step\<close> here.
\<close>

definition resolveJourneyStep :: "UserOverview \<Rightarrow> JourneyStep" where
  "resolveJourneyStep overview =
     (let u = user overview in
      if usr_status u \<noteq> verified then verify
      else
        let hasBodyProfile = (body_profile u \<noteq> None);
            hasRequest = (length (requests overview) > 0);
            hasPayment = (length (payments overview) > 0);
            hasDnaToken = (length (dna_tokens overview) > 0);
            hasMiniToken = (length (miniaturization_tokens overview) > 0)
        in if \<not> hasBodyProfile then intake
           else if \<not> hasRequest then mini
           else if \<not> hasPayment then payment
           else if \<not> hasDnaToken then assessment
           else if \<not> hasMiniToken then token
           else complete_step)"

text \<open>All values of the \<open>JourneyStep\<close> union, in declaration order.\<close>

definition all_journey_steps :: "JourneyStep list" where
  "all_journey_steps = [signup, verify, intake, mini, payment, assessment, token, complete_step]"


section \<open>The onboarding workflow component (\<open>UserJourney\<close>)\<close>

text \<open>
  The component keeps its data in React state cells and refs; the model collects
  the cells that the hydration and the submit handlers write into one record and
  passes it explicitly.  The four form records and \<open>paymentAmount\<close>, which only
  prefill input boxes through \<open>String\<close> and \<open>toFixed\<close>, are not part of the record.
  A request to the backend either resolves with a value or rejects with a message.
\<close>

datatype 'a ApiResult = Failed string | Ok 'a

datatype JourneyMode = mode_new | mode_resume

datatype HydrateContext = ctx_initial | ctx_sync

record UserJourneyProps =
  mode :: JourneyMode
  has_onComplete :: bool

record JourneyState =
  step :: JourneyStep
  uj_overview :: "UserOverview option"
  userId :: "string option"
  uj_error :: "string option"
  otpInput :: string
  otpCooldown :: nat
  requestId :: "string option"
  estimatedCost :: "real option"
  dnaTokenId :: "string option"
  issuedToken :: "(string \<times> MiniaturizationStatus) option"
  statusLog :: "string list"
  previousStageRef :: "MiniaturizationStage option"
  initialHydrateRef :: bool
  completionNotifiedRef :: bool

definition FINALIZED_STAGES :: "MiniaturizationStage set" where
  "FINALIZED_STAGES = {stage_awaiting_procedure, stage_miniaturized}"

text \<open>\<open>stage.toUpperCase()\<close> on the seven stage names.\<close>

fun stage_upper :: "MiniaturizationStage \<Rightarrow> string" where
  "stage_upper stage_signup = ''SIGNUP''"
| "stage_upper stage_verified = ''VERIFIED''"
| "stage_upper stage_request_submitted = ''REQUEST_SUBMITTED''"
| "stage_upper stage_payment_captured = ''PAYMENT_CAPTURED''"
| "stage_upper stage_assessment_complete = ''ASSESSMENT_COMPLETE''"
| "stage_upper stage_awaiting_procedure = ''AWAITING_PROCEDURE''"
| "stage_upper stage_miniaturized = ''MINIATURIZED''"

text \<open>The component's \<open>log\<close> callback: \<open>setStatusLog(logs => [message, ...logs.slice(0, 8)])\<close>\<close>

definition log_status :: "string \<Rightarrow> JourneyState \<Rightarrow> JourneyState" where
  "log_status message st = st\<lparr>statusLog := message # take 8 (statusLog st)\<rparr>"

text \<open>The state of the first render: \<open>useState(mode === "resume" ? "verify" : "signup")\<close>.\<close>

definition initialJourneyState :: "UserJourneyProps \<Rightarrow> string option \<Rightarrow> JourneyState" where
  "initialJourneyState props initialUserId =
     \<lparr>step = (if mode props = mode_resume then verify else signup),
      uj_overview = None,
      userId = initialUserId,
      uj_error = None,
      otpInput = [],
      otpCooldown = 0,
      requestId = None,
      estimatedCost = None,
      dnaTokenId = None,
      issuedToken = None,
      statusLog = [],
      previousStageRef = None,
      initialHydrateRef = False,
      completionNotifiedRef = False\<rparr>"

text \<open>\<open>xs.length > 0 ? xs[xs.length - 1] : null\<close>\<close>

definition latest :: "'a list \<Rightarrow> 'a option" where
  "latest xs = (if length xs > 0 then Some (xs ! (length xs - 1)) else None)"

definition hydrateFromOverview ::
  "UserJourneyProps \<Rightarrow> UserOverview \<Rightarrow> HydrateContext \<Rightarrow> JourneyState \<Rightarrow> JourneyState" where
  "hydrateFromOverview props data context st =
     (let st1 = st\<lparr>uj_overview := Some data, userId := Some (usr_id (user data))\<rparr>;
          nextStep = resolveJourneyStep data;
          st2 = st1\<lparr>step := nextStep\<rparr>;
          previousStage = previousStageRef st;
          stageChanged =
            (previousStage \<noteq> None \<and> previousStage \<noteq> Some (current_stage (user data)));
          st3 =
            (if context = ctx_initial \<and> mode props = mode_resume \<and> \<not> initialHydrateRef st
             then (log_status (''Continuing at stage '' @ stage_upper (current_stage (user data)) @ ''.'') st2)
                    \<lparr>initialHydrateRef := True\<rparr>
             else if stageChanged
             then log_status (''Stage advanced to '' @ stage_upper (current_stage (user data)) @ ''.'') st2
             else st2);
          st4 = st3\<lparr>previousStageRef := Some (current_stage (user data))\<rparr>;
          st5 = (if nextStep \<noteq> verify then st4\<lparr>otpCooldown := 0, otpInput := []\<rparr> else st4);
          latestRequest = latest (requests data);
          st6 = st5\<lparr>requestId := map_option req_id latestRequest,
                     estimatedCost := map_option req_cost_usd latestRequest\<rparr>;
          latestDnaToken = latest (dna_tokens data);
          st7 = st6\<lparr>dnaTokenId := map_option dna_id latestDnaToken\<rparr>;
          latestMiniToken = latest (miniaturization_tokens data);
          st8 = st7\<lparr>issuedToken := map_option (\<lambda>t. (mtok_id t, mtok_status t)) latestMiniToken\<rparr>
      in if nextStep = complete_step \<and> current_stage (user data) \<in> FINALIZED_STAGES
            \<and> has_onComplete props \<and> \<not> completionNotifiedRef st
         then st8\<lparr>completionNotifiedRef := True\<rparr>
         else st8)"

text \<open>\<open>!x\<close> on a \<open>string | null\<close>: \<open>null\<close> and the empty string are falsy.\<close>

definition falsy :: "string option \<Rightarrow> bool" where
  "falsy x = (case x of None \<Rightarrow> True | Some s \<Rightarrow> s = [])"

text \<open>
  \<open>refreshOverview\<close> returns at once without a user id and swallows a failed
  fetch; \<open>fetch\<close> stands for \<open>fetchUserOverview\<close>.
\<close>

definition refreshOverview ::
  "UserJourneyProps \<Rightarrow> (string \<Rightarrow> UserOverview ApiResult) \<Rightarrow> HydrateContext
     \<Rightarrow> JourneyState \<Rightarrow> JourneyState" where
  "refreshOverview props fetch context st =
     (if falsy (userId st) then st
      else (case fetch (the (userId st)) of
              Failed msg \<Rightarrow> st
            | Ok data \<Rightarrow> hydrateFromOverview props data context st))"

text \<open>
  The six submit handlers a resumed session can reach, each with what the backend
  answered to its request, reduced to the fields the handler stores or logs
  (numbers that are only printed come as their text: the health score and bucket,
  and the cost with two decimals).  A handler returns at once when its guard
  fails.  Otherwise it sets the step it expects next and calls
  \<open>refreshOverview()\<close>, whose fetch resolves after the handler's own state updates.
\<close>

datatype HandlerRun =
    VerifyRun
  | IntakeRun string string
  | MiniRequestRun string real string
  | PaymentRun
  | AssessmentRun string
  | TokenIssueRun string MiniaturizationStatus

fun handlerGuardFails :: "HandlerRun \<Rightarrow> JourneyState \<Rightarrow> bool" where
  "handlerGuardFails PaymentRun st = (falsy (userId st) \<or> falsy (requestId st))"
| "handlerGuardFails (TokenIssueRun tid status) st =
     (falsy (userId st) \<or> falsy (requestId st) \<or> falsy (dnaTokenId st))"
| "handlerGuardFails h st = falsy (userId st)"

fun handlerSucceeded :: "UserJourneyProps \<Rightarrow> HandlerRun \<Rightarrow> JourneyState \<Rightarrow> JourneyState" where
  "handlerSucceeded props VerifyRun st =
     (log_status ''Identity verified. Continue with health intake.'' st)
       \<lparr>step := intake, otpInput := [], otpCooldown := 0\<rparr>"
| "handlerSucceeded props (IntakeRun score bucket) st =
     (log_status (''Health intake recorded. Score '' @ score @ '' ('' @ bucket @ '').'') st)
       \<lparr>step := mini\<rparr>"
| "handlerSucceeded props (MiniRequestRun rid cost cost_text) st =
     (log_status (''Miniaturization request filed. Estimated cost $'' @ cost_text @ ''.'') st)
       \<lparr>requestId := Some rid, estimatedCost := Some cost, step := payment\<rparr>"
| "handlerSucceeded props PaymentRun st =
     (log_status ''Invoice settled. DNA vault intake commencing.'' st)\<lparr>step := assessment\<rparr>"
| "handlerSucceeded props (AssessmentRun dna) st =
     (log_status ''DNA token sealed within the Vault.'' st)
       \<lparr>dnaTokenId := Some dna, step := token\<rparr>"
| "handlerSucceeded props (TokenIssueRun tid status) st =
     (let st1 = (log_status ''Miniaturization token minted. Awaiting vault clearance.'' st)
                  \<lparr>issuedToken := Some (tid, status), step := complete_step\<rparr>
      in if has_onComplete props \<and> \<not> completionNotifiedRef st
         then st1\<lparr>completionNotifiedRef := True\<rparr> else st1)"

text \<open>
  A handler run to the end: after the guard the request is sent; when it is
  rejected (\<open>Some msg\<close>) only the message is recorded (\<open>setError\<close>); otherwise the
  handler's updates are applied and the overview fetched by \<open>refreshOverview()\<close>
  arrives.
\<close>

definition runHandler ::
  "UserJourneyProps \<Rightarrow> (string \<Rightarrow> UserOverview ApiResult) \<Rightarrow> HandlerRun \<Rightarrow> string option
     \<Rightarrow> JourneyState \<Rightarrow> JourneyState" where
  "runHandler props fetch h failure st =
     (if handlerGuardFails h st then st
      else (case failure of
              Some msg \<Rightarrow> st\<lparr>uj_error := Some msg\<rparr>
            | None \<Rightarrow>
                refreshOverview props fetch ctx_sync
                  (handlerSucceeded props h (st\<lparr>uj_error := None\<rparr>))))"


section \<open>The insurance enrollment page (\<open>InsuranceEnrollment\<close>)\<close>

record PointsSpent =
  points_spent :: real
  value_usd :: real

record InsurancePolicyActivationResponse =
  ar_policy :: InsurancePolicyRecord
  ar_payment :: "PaymentRecord option"
  ar_discount :: PointsSpent
  ar_pricing :: InsurancePolicyQuote
  ar_replaced_policy_id :: "string option"
  ar_activation_mode :: "ActivationMode option"
  ar_effective_at :: "string option"

record InsurancePolicyQuoteResponse =
  qr_quote :: InsurancePolicyQuote
  qr_has_active_policy :: bool
  qr_eligible :: bool
  qr_request_status :: MiniaturizationStatus
  qr_active_policy_tier :: "InsuranceTier option"
  qr_activation_mode :: "ActivationMode option"
  qr_effective_at :: "string option"
  qr_scheduled_policy_tier :: "InsuranceTier option"

text \<open>
  The state cells of the page.  \<open>selectedRequestId\<close> is a string whose empty value
  means that nothing is selected, as in the source.
\<close>

record EnrollmentState =
  overview :: "UserOverview option"
  loading :: bool
  load_error :: "string option"
  selectedRequestId :: string
  selectedTier :: InsuranceTier
  quote :: "InsurancePolicyQuote option"
  quoteEligible :: bool
  quoteStatus :: "MiniaturizationStatus option"
  activePolicyTier :: "InsuranceTier option"
  activationMode :: "ActivationMode option"
  effectiveAt :: "string option"
  scheduledPolicyTier :: "InsuranceTier option"
  previewLoading :: bool
  previewError :: "string option"
  activationSaving :: bool
  activationFeedback :: "string option"
  activationError :: "string option"

fun insuranceTierLabels :: "InsuranceTier \<Rightarrow> string" where
  "insuranceTierLabels basic = ''Basic''"
| "insuranceTierLabels plus_tier = ''Plus''"
| "insuranceTierLabels premium = ''Premium''"
| "insuranceTierLabels ultra = ''Ultra''"

fun status_name :: "MiniaturizationStatus \<Rightarrow> string" where
  "status_name draft = ''draft''"
| "status_name awaiting_approval = ''awaiting_approval''"
| "status_name approved = ''approved''"
| "status_name rejected = ''rejected''"
| "status_name completed = ''completed''"

text \<open>\<open>s.replace(/_/g, " ")\<close>\<close>

definition underscores_to_spaces :: "string \<Rightarrow> string" where
  "underscores_to_spaces s = map (\<lambda>c. if c = CHR ''_'' then CHR '' '' else c) s"

text \<open>\<open>overview?.insurance_policies ?? []\<close> and \<open>overview?.requests ?? []\<close>\<close>

definition policies_of :: "UserOverview option \<Rightarrow> InsurancePolicyRecord list" where
  "policies_of ov = (case ov of None \<Rightarrow> [] | Some data \<Rightarrow> insurance_policies data)"

definition requests_of :: "UserOverview option \<Rightarrow> MiniaturizationRequestRecord list" where
  "requests_of ov = (case ov of None \<Rightarrow> [] | Some data \<Rightarrow> requests data)"

text \<open>
  The two \<open>Map\<close>s are filled by a \<open>for\<close> loop over the policies in order;
  \<open>mapping.set\<close> overwrites an earlier entry of the same key.
\<close>

definition policiesByRequest :: "UserOverview option \<Rightarrow> (string \<rightharpoonup> InsurancePolicyRecord)" where
  "policiesByRequest ov =
     foldl (\<lambda>mapping policy.
              if pol_status policy = active then mapping(pol_request_id policy \<mapsto> policy)
              else mapping)
           Map.empty (policies_of ov)"

definition scheduledPoliciesByRequest :: "UserOverview option \<Rightarrow> (string \<rightharpoonup> InsurancePolicyRecord)" where
  "scheduledPoliciesByRequest ov =
     foldl (\<lambda>mapping policy.
              if pol_status policy = scheduled then mapping(pol_request_id policy \<mapsto> policy)
              else mapping)
           Map.empty (policies_of ov)"

definition eligibleRequests :: "UserOverview option \<Rightarrow> MiniaturizationRequestRecord list" where
  "eligibleRequests ov =
     filter (\<lambda>request.
               let statusEligible = (req_status request = approved \<or> req_status request = completed)
               in statusEligible)
            (requests_of ov)"

text \<open>
  The effect that keeps the selection inside the eligible requests
  (\<open>eligibleRequests[0].id\<close> is read only when the list is not empty).
\<close>

definition syncSelectedRequest :: "EnrollmentState \<Rightarrow> EnrollmentState" where
  "syncSelectedRequest st =
     (case eligibleRequests (overview st) of
        [] \<Rightarrow> st\<lparr>selectedRequestId := []\<rparr>
      | first # rest \<Rightarrow>
          (let prev = selectedRequestId st
           in if prev \<noteq> [] \<and> list_ex (\<lambda>request. req_id request = prev) (first # rest)
              then st
              else st\<lparr>selectedRequestId := req_id first\<rparr>))"

text \<open>
  The effect that follows the active policy of the selected request
  (\<open>policiesByRequest.get(selectedRequestId)\<close>): it sets the tier selection to the
  active policy's tier, or to \<open>basic\<close> when there is none.
\<close>

definition syncSelectedTier :: "EnrollmentState \<Rightarrow> EnrollmentState" where
  "syncSelectedTier st =
     (if selectedRequestId st = [] then st\<lparr>selectedTier := basic, activePolicyTier := None\<rparr>
      else
        (case policiesByRequest (overview st) (selectedRequestId st) of
           Some activePolicy \<Rightarrow>
             st\<lparr>selectedTier := pol_tier activePolicy,
                activePolicyTier := Some (pol_tier activePolicy)\<rparr>
         | None \<Rightarrow> st\<lparr>selectedTier := basic, activePolicyTier := None\<rparr>))"

definition clearPreview :: "EnrollmentState \<Rightarrow> EnrollmentState" where
  "clearPreview st =
     st\<lparr>quote := None, quoteEligible := False, quoteStatus := None, activePolicyTier := None,
        activationMode := None, effectiveAt := None, scheduledPolicyTier := None\<rparr>"

text \<open>
  The preview effect, run to the end of its promise chain: \<open>response\<close> is the
  outcome of \<open>previewInsurancePolicy\<close> for the selected request and tier.
\<close>

definition previewEffect ::
  "InsurancePolicyQuoteResponse ApiResult \<Rightarrow> EnrollmentState \<Rightarrow> EnrollmentState" where
  "previewEffect response st =
     (if selectedRequestId st = [] then clearPreview st
      else
        (let st1 = st\<lparr>previewLoading := True, previewError := None\<rparr>;
             st2 =
               (case response of
                  Ok r \<Rightarrow>
                    st1\<lparr>quote := Some (qr_quote r),
                        quoteEligible := qr_eligible r,
                        quoteStatus := Some (qr_request_status r),
                        activePolicyTier := qr_active_policy_tier r,
                        activationMode := qr_activation_mode r,
                        effectiveAt := qr_effective_at r,
                        scheduledPolicyTier := qr_scheduled_policy_tier r\<rparr>
                | Failed msg \<Rightarrow> (clearPreview st1)\<lparr>previewError := Some msg\<rparr>)
         in st2\<lparr>previewLoading := False\<rparr>))"

definition sameTierActive :: "EnrollmentState \<Rightarrow> bool" where
  "sameTierActive st =
     (activePolicyTier st \<noteq> None \<and> map_option q_tier (quote st) = activePolicyTier st)"

definition sameTierScheduled :: "EnrollmentState \<Rightarrow> bool" where
  "sameTierScheduled st =
     (scheduledPolicyTier st \<noteq> None \<and> map_option q_tier (quote st) = scheduledPolicyTier st)"

text \<open>
  \<open>effectiveAt ? formatDate(effectiveAt) : "your next billing date"\<close>: the empty
  string is falsy.  \<open>formatDate\<close> renders through the browser's locale tables and is
  a parameter.
\<close>

definition scheduleLabel :: "(string \<Rightarrow> string) \<Rightarrow> string option \<Rightarrow> string" where
  "scheduleLabel formatDate eff =
     (case eff of
        None \<Rightarrow> ''your next billing date''
      | Some d \<Rightarrow> if d = [] then ''your next billing date'' else formatDate d)"

definition infoMessage :: "(string \<Rightarrow> string) \<Rightarrow> EnrollmentState \<Rightarrow> string option" where
  "infoMessage formatDate st =
     (case quote st of
        None \<Rightarrow> None
      | Some q \<Rightarrow>
          if \<not> quoteEligible st then
            Some (''Request status is ''
                  @ (case quoteStatus st of
                       None \<Rightarrow> ''unavailable''
                     | Some s \<Rightarrow> underscores_to_spaces (status_name s))
                  @ ''. Coverage activates once approval completes.'')
          else if sameTierActive st then
            Some ''This tier is already active for the selected request.''
          else if sameTierScheduled st then
            Some (''This tier is already scheduled to begin on ''
                  @ scheduleLabel formatDate (effectiveAt st)
                  @ ''. No further action required.'')
          else if activationMode st = Some scheduled_mode then
            (let currentLabel =
                   (case activePolicyTier st of
                      Some t \<Rightarrow> insuranceTierLabels t @ '' coverage''
                    | None \<Rightarrow> ''Current coverage'');
                 existingScheduleNote =
                   (case scheduledPolicyTier st of
                      Some t \<Rightarrow>
                        if t \<noteq> q_tier q
                        then '' This will replace your scheduled '' @ insuranceTierLabels t
                             @ '' coverage.''
                        else []
                    | None \<Rightarrow> [])
             in Some (''This change takes effect on your next billing date (''
                      @ scheduleLabel formatDate (effectiveAt st) @ ''). ''
                      @ currentLabel @ '' stays active until then.'' @ existingScheduleNote))
          else Some ''Activation will start coverage immediately.'')"

definition disableActivate :: "EnrollmentState \<Rightarrow> bool" where
  "disableActivate st =
     (selectedRequestId st = [] \<or> quote st = None \<or> \<not> quoteEligible st \<or> activationSaving st
      \<or> previewLoading st \<or> sameTierActive st \<or> sameTierScheduled st)"

text \<open>
  \<open>loadOverview\<close> catches a failed fetch itself and never rejects.  It is split at
  its \<open>await\<close>: the two updates before the fetch, and the updates once the fetch
  has settled.
\<close>

definition loadOverviewStarted :: "EnrollmentState \<Rightarrow> EnrollmentState" where
  "loadOverviewStarted st = st\<lparr>loading := True, load_error := None\<rparr>"

definition loadOverviewSettled :: "UserOverview ApiResult \<Rightarrow> EnrollmentState \<Rightarrow> EnrollmentState" where
  "loadOverviewSettled fetched st =
     (let st1 = (case fetched of
                   Ok data \<Rightarrow> st\<lparr>overview := Some data\<rparr>
                 | Failed msg \<Rightarrow> st\<lparr>load_error := Some msg\<rparr>)
      in st1\<lparr>loading := False\<rparr>)"

definition loadOverview :: "UserOverview ApiResult \<Rightarrow> EnrollmentState \<Rightarrow> EnrollmentState" where
  "loadOverview fetched st = loadOverviewSettled fetched (loadOverviewStarted st)"

text \<open>
  The effects that run once \<open>setOverview(data)\<close> has replaced the overview.  The
  new overview gives a new \<open>eligibleRequests\<close> and a new \<open>policiesByRequest\<close>, so
  the selection effect and the tier effect run (the tier effect again, should
  the selected request have changed).  If they have changed \<open>selectedRequestId\<close>
  or \<open>selectedTier\<close>, the effect on these two clears the feedback and the error
  of the last activation, and the preview effect runs for the new selection:
  \<open>preview\<close> is the outcome of its \<open>previewInsurancePolicy\<close>.  A state update
  to the value the cell already holds triggers nothing.
\<close>

definition overviewEffects ::
  "InsurancePolicyQuoteResponse ApiResult \<Rightarrow> EnrollmentState \<Rightarrow> EnrollmentState" where
  "overviewEffects preview st =
     (let st1 = syncSelectedTier (syncSelectedRequest st)
      in if selectedRequestId st1 \<noteq> selectedRequestId st \<or> selectedTier st1 \<noteq> selectedTier st
         then previewEffect preview (st1\<lparr>activationFeedback := None, activationError := None\<rparr>)
         else st1)"

text \<open>
  The text of the feedback that \<open>handleActivate\<close> builds from the response.
  \<open>formatCurrency\<close> (\<open>toFixed(2)\<close>) is a parameter like \<open>formatDate\<close>.
\<close>

definition activationFeedbackText ::
  "(string \<Rightarrow> string) \<Rightarrow> (real \<Rightarrow> string) \<Rightarrow> InsuranceTier option
     \<Rightarrow> InsurancePolicyActivationResponse \<Rightarrow> string" where
  "activationFeedbackText formatDate formatCurrency previousTier response =
     (let responseTier = q_tier (ar_pricing response);
          newTierLabel = insuranceTierLabels responseTier;
          previousTierLabel = map_option insuranceTierLabels previousTier;
          mode = (case ar_activation_mode response of None \<Rightarrow> immediate | Some m \<Rightarrow> m);
          effectiveLabel = scheduleLabel formatDate (ar_effective_at response)
      in if mode = scheduled_mode then
           (let coverageNote =
                  (case previousTierLabel of
                     Some l \<Rightarrow> l @ '' coverage stays active until then.''
                   | None \<Rightarrow> ''Current coverage stays active until then.'')
            in newTierLabel @ '' coverage scheduled at ''
               @ formatCurrency (q_final_premium (ar_pricing response))
               @ '' per month. It will begin on '' @ effectiveLabel @ ''. '' @ coverageNote)
         else
           (let transitionNote =
                  (case previousTierLabel of
                     Some l \<Rightarrow>
                       if l \<noteq> newTierLabel then '' Replaced '' @ l @ '' coverage.'' else []
                   | None \<Rightarrow> [])
            in newTierLabel @ '' coverage active at ''
               @ formatCurrency (q_final_premium (ar_pricing response))
               @ '' per month.'' @ transitionNote))"

text \<open>
  \<open>handleActivate\<close> up to its \<open>await loadOverview()\<close>: \<open>response\<close> is the outcome of
  \<open>activateInsurancePolicy\<close>.  This is the page from the moment the answer has
  arrived until the reload of the overview has settled; with a failed
  activation there is no reload, and it is the end of the handler.
\<close>

definition handleActivateUntilReload ::
  "(string \<Rightarrow> string) \<Rightarrow> (real \<Rightarrow> string) \<Rightarrow> InsurancePolicyActivationResponse ApiResult
     \<Rightarrow> EnrollmentState \<Rightarrow> EnrollmentState" where
  "handleActivateUntilReload formatDate formatCurrency response st =
     (if selectedRequestId st = [] then st
      else
        (let previousTier = activePolicyTier st;
             st1 = st\<lparr>activationSaving := True, activationError := None,
                      activationFeedback := None\<rparr>
         in case response of
              Ok r \<Rightarrow>
                (let responseTier = q_tier (ar_pricing r);
                     mode = (case ar_activation_mode r of None \<Rightarrow> immediate | Some m \<Rightarrow> m)
                 in loadOverviewStarted
                      (st1\<lparr>activationFeedback :=
                              Some (activationFeedbackText formatDate formatCurrency previousTier r),
                           activationMode := Some mode,
                           effectiveAt := ar_effective_at r,
                           scheduledPolicyTier :=
                             (if mode = scheduled_mode then Some responseTier else None)\<rparr>))
            | Failed msg \<Rightarrow> st1\<lparr>activationError := Some msg, activationSaving := False\<rparr>))"

text \<open>
  \<open>handleActivate\<close>, run to the end, with the effects that the reloaded overview
  triggers: \<open>fetched\<close> is the outcome of the reload and \<open>preview\<close> that of the
  preview the effects may ask for.  A failed reload leaves the overview as it
  was, and no effect runs.
\<close>

definition handleActivate ::
  "(string \<Rightarrow> string) \<Rightarrow> (real \<Rightarrow> string) \<Rightarrow> InsurancePolicyActivationResponse ApiResult
     \<Rightarrow> UserOverview ApiResult \<Rightarrow> InsurancePolicyQuoteResponse ApiResult
     \<Rightarrow> EnrollmentState \<Rightarrow> EnrollmentState" where
  "handleActivate formatDate formatCurrency response fetched preview st =
     (let st1 = handleActivateUntilReload formatDate formatCurrency response st
      in if selectedRequestId st = [] then st1
         else
           (case response of
              Failed msg \<Rightarrow> st1
            | Ok r \<Rightarrow>
                (let st2 = (loadOverviewSettled fetched st1)\<lparr>activationSaving := False\<rparr>
                 in case fetched of
                      Ok data \<Rightarrow> overviewEffects preview st2
                    | Failed msg \<Rightarrow> st2)))"


section \<open>The admin pricing form (\<open>AdminPricing\<close>)\<close>

datatype HealthBucket = good | normal | unhealthy | extremely_unhealthy

record InsurancePricingRecord =
  price_basic :: real
  price_plus :: real
  price_premium :: real
  price_ultra :: real

record HealthBucketMultipliersRecord =
  mult_good :: real
  mult_normal :: real
  mult_unhealthy :: real
  mult_extremely_unhealthy :: real

record PointsDiscountPolicyRecord =
  points_per_discount_unit :: real
  discount_per_unit :: real

record SettingsRecord =
  pricing_per_step :: real
  scale_min :: real
  scale_max :: real
  scale_step :: real
  insurance_pricing :: InsurancePricingRecord
  health_bucket_multipliers :: HealthBucketMultipliersRecord
  points_discount :: PointsDiscountPolicyRecord

text \<open>
  The keys of the computed-property updates \<open>{ ...prev, [key]: value }\<close>.  The draft
  is \<open>SettingsRecord | null\<close>, and every setter leaves a \<open>null\<close> draft alone.
\<close>

datatype SettingsKey = key_pricing_per_step | key_scale_min | key_scale_max | key_scale_step

datatype PointsKey = key_points_per_discount_unit | key_discount_per_unit

fun changeField :: "SettingsKey \<Rightarrow> real \<Rightarrow> SettingsRecord option \<Rightarrow> SettingsRecord option" where
  "changeField key_pricing_per_step v settings_draft = map_option (\<lambda>prev. prev\<lparr>pricing_per_step := v\<rparr>) settings_draft"
| "changeField key_scale_min v settings_draft = map_option (\<lambda>prev. prev\<lparr>scale_min := v\<rparr>) settings_draft"
| "changeField key_scale_max v settings_draft = map_option (\<lambda>prev. prev\<lparr>scale_max := v\<rparr>) settings_draft"
| "changeField key_scale_step v settings_draft = map_option (\<lambda>prev. prev\<lparr>scale_step := v\<rparr>) settings_draft"

fun set_tier_price :: "InsuranceTier \<Rightarrow> real \<Rightarrow> InsurancePricingRecord \<Rightarrow> InsurancePricingRecord" where
  "set_tier_price basic v r = r\<lparr>price_basic := v\<rparr>"
| "set_tier_price plus_tier v r = r\<lparr>price_plus := v\<rparr>"
| "set_tier_price premium v r = r\<lparr>price_premium := v\<rparr>"
| "set_tier_price ultra v r = r\<lparr>price_ultra := v\<rparr>"

fun set_bucket_multiplier ::
  "HealthBucket \<Rightarrow> real \<Rightarrow> HealthBucketMultipliersRecord \<Rightarrow> HealthBucketMultipliersRecord" where
  "set_bucket_multiplier good v r = r\<lparr>mult_good := v\<rparr>"
| "set_bucket_multiplier normal v r = r\<lparr>mult_normal := v\<rparr>"
| "set_bucket_multiplier unhealthy v r = r\<lparr>mult_unhealthy := v\<rparr>"
| "set_bucket_multiplier extremely_unhealthy v r = r\<lparr>mult_extremely_unhealthy := v\<rparr>"

definition changeInsuranceField ::
  "InsuranceTier \<Rightarrow> real \<Rightarrow> SettingsRecord option \<Rightarrow> SettingsRecord option" where
  "changeInsuranceField key v settings_draft =
     map_option (\<lambda>prev. prev\<lparr>insurance_pricing := set_tier_price key v (insurance_pricing prev)\<rparr>)
       settings_draft"

definition changeBucketField ::
  "HealthBucket \<Rightarrow> real \<Rightarrow> SettingsRecord option \<Rightarrow> SettingsRecord option" where
  "changeBucketField key v settings_draft =
     map_option
       (\<lambda>prev. prev\<lparr>health_bucket_multipliers :=
                      set_bucket_multiplier key v (health_bucket_multipliers prev)\<rparr>)
       settings_draft"

fun changePointsField :: "PointsKey \<Rightarrow> real \<Rightarrow> SettingsRecord option \<Rightarrow> SettingsRecord option" where
  "changePointsField key_points_per_discount_unit v settings_draft =
     map_option
       (\<lambda>prev. prev\<lparr>points_discount := (points_discount prev)\<lparr>points_per_discount_unit := v\<rparr>\<rparr>)
       settings_draft"
| "changePointsField key_discount_per_unit v settings_draft =
     map_option
       (\<lambda>prev. prev\<lparr>points_discount := (points_discount prev)\<lparr>discount_per_unit := v\<rparr>\<rparr>)
       settings_draft"

text \<open>
  \<open>Math.round\<close> returns the integer nearest to its argument, a tie going up; this
  is \<open>round\<close> of HOL (\<open>round x = \<lfloor>x + 1/2\<rfloor>\<close>), exactly, since the result of
  \<open>Math.round\<close> on a finite double is again a double.  The numbers that reach the
  \<open>onChange\<close> callbacks are finite: in the form with the number input the browser
  hands over the empty string or a number literal, and the form with the text
  input drops \<open>NaN\<close> and the infinities in \<open>commitValue\<close>.
\<close>

definition js_round :: "real \<Rightarrow> real" where
  "js_round x = of_int (round x)"

text \<open>
  The \<open>onChange\<close> wiring of the fields in the JSX, one constructor per kind of
  field; both versions of the page wire the fields alike.
\<close>

datatype FormEdit =
    EditField SettingsKey real
  | EditInsurance InsuranceTier real
  | EditBucket HealthBucket real
  | EditPointsPerUnit real
  | EditDiscountPerUnit real

fun applyEdit :: "FormEdit \<Rightarrow> SettingsRecord option \<Rightarrow> SettingsRecord option" where
  "applyEdit (EditField key v) settings_draft = changeField key v settings_draft"
| "applyEdit (EditInsurance tier v) settings_draft = changeInsuranceField tier v settings_draft"
| "applyEdit (EditBucket bucket v) settings_draft = changeBucketField bucket v settings_draft"
| "applyEdit (EditPointsPerUnit v) settings_draft =
     changePointsField key_points_per_discount_unit (max 1 (js_round v)) settings_draft"
| "applyEdit (EditDiscountPerUnit v) settings_draft = changePointsField key_discount_per_unit v settings_draft"

text \<open>
  \<open>PricingField\<close> of the page with the text input.  \<open>commitValue\<close> works on the
  trimmed text; \<open>Number(trimmed)\<close> is its input here: the empty text, a text
  that gives \<open>NaN\<close> or an infinity, or a finite number.  The result is the
  argument \<open>onChange\<close> is called with, if it is called.
  \<open>Number(next.toFixed(6))\<close> rounds to six decimals.  The ``Points per
  redemption'' field has \<open>step={100}\<close> and \<open>min={100}\<close>, and its \<open>onChange\<close> is the
  one of \<open>EditPointsPerUnit\<close>.

  The source computes in doubles and the model in exact numbers, so the model
  takes \<open>min\<close> and \<open>step\<close> as whole numbers that are not negative, as that field
  has them.  With such a \<open>min\<close> and \<open>step\<close>, and numbers within the 53 bits that a
  double holds exactly, \<open>next - base\<close>, \<open>steps * step\<close> and \<open>base + steps * step\<close>
  are exact in doubles, and the rounded quotient gives \<open>Math.round\<close> the same
  whole number as the exact one.  The fields with a fractional \<open>min\<close> or \<open>step\<close>
  (0.5, 0.1, 0.001) are outside the model: there the division rounds before
  \<open>Math.round\<close> (the text \<open>0.35\<close> with \<open>min={0.1}\<close> and \<open>step={0.1}\<close> commits 0.3,
  where exact arithmetic gives 0.4).
\<close>

datatype RawInput = EmptyText | NotFinite | Parsed real

definition toFixed6 :: "real \<Rightarrow> real" where
  "toFixed6 x = of_int (round (x * 1000000)) / 1000000"

definition commitValue :: "nat option \<Rightarrow> nat \<Rightarrow> real \<Rightarrow> RawInput \<Rightarrow> real option" where
  "commitValue minimum stp val raw =
     (case raw of
        EmptyText \<Rightarrow> map_option of_nat minimum
      | NotFinite \<Rightarrow> None
      | Parsed parsed \<Rightarrow>
          (let next1 = (case minimum of
                          Some m \<Rightarrow> if parsed < of_nat m then of_nat m else parsed
                        | None \<Rightarrow> parsed);
               next2 = (if stp > 0
                        then (let base = (case minimum of Some m \<Rightarrow> of_nat m | None \<Rightarrow> 0);
                                  steps = js_round ((next1 - base) / of_nat stp)
                              in base + steps * of_nat stp)
                        else next1);
               normalized = toFixed6 next2
           in if normalized \<noteq> val then Some normalized else None))"

text \<open>A positive whole number, as a property of a JavaScript number.\<close>

definition positive_integer :: "real \<Rightarrow> bool" where
  "positive_integer x = (1 \<le> x \<and> of_int \<lfloor>x\<rfloor> = x)"


section \<open>The backend: quote engine and activation state machine\<close>

text \<open>
  The backend that answers \<open>POST /users/{id}/insurance/preview\<close> and
  \<open>POST /users/{id}/insurance\<close> is not among the source files; the client only
  declares the shapes of its answers.  The definitions of this section follow
  sections 4.1 and 4.2 of the specification, on the records of \<open>api.ts\<close>.
  A tier is an \<open>InsuranceTier\<close>, so the \<open>InvalidTierError\<close> of the specification
  has no input that raises it.
\<close>

datatype BackendError = InvalidTierError | OutOfRangeError | RequestNotEligibleError

text \<open>
  Modelled from the spec: steps 2 and 3 of the quote engine, the lookups
  \<open>settings.insurance_pricing[tier]\<close> and
  \<open>settings.health_bucket_multipliers[healthBucket]\<close>.
\<close>

fun tier_rate :: "SettingsRecord \<Rightarrow> InsuranceTier \<Rightarrow> real" where
  "tier_rate settings basic = price_basic (insurance_pricing settings)"
| "tier_rate settings plus_tier = price_plus (insurance_pricing settings)"
| "tier_rate settings premium = price_premium (insurance_pricing settings)"
| "tier_rate settings ultra = price_ultra (insurance_pricing settings)"

fun bucket_rate :: "SettingsRecord \<Rightarrow> HealthBucket \<Rightarrow> real" where
  "bucket_rate settings good = mult_good (health_bucket_multipliers settings)"
| "bucket_rate settings normal = mult_normal (health_bucket_multipliers settings)"
| "bucket_rate settings unhealthy = mult_unhealthy (health_bucket_multipliers settings)"
| "bucket_rate settings extremely_unhealthy =
     mult_extremely_unhealthy (health_bucket_multipliers settings)"

text \<open>
  Modelled from the spec: the rounding of step 4 of the quote engine, ``rounded to
  2 decimal places (currency semantics)''; a half cent is rounded up.
\<close>

definition round_cents :: "real \<Rightarrow> real" where
  "round_cents x = of_int (round (x * 100)) / 100"

text \<open>
  Modelled from the spec: \<open>units_redeemable\<close> of step 5 of the quote engine,
  \<open>floor(availablePoints / points_per_discount_unit)\<close>.
\<close>

definition units_redeemable :: "SettingsRecord \<Rightarrow> real \<Rightarrow> int" where
  "units_redeemable settings availablePoints =
     \<lfloor>availablePoints / points_per_discount_unit (points_discount settings)\<rfloor>"

text \<open>
  Modelled from the spec: the backend's quote engine
  \<open>quote(request, tier, settings, healthBucket, availablePoints)\<close>, steps 1 to 6 of
  section 4.1 with its \<open>OutOfRangeError\<close>.  When the cap of step 5 applies, the
  points are ``recomputed by inverting from the capped discount'': as in
  Scenario B (\<open>4 \<times> 5 = 20 \<le> 20\<close> but \<open>5 \<times> 5 = 25 > 20\<close>) the whole units that fit
  into the capped discount are counted and converted back to points.
\<close>

definition quote_engine ::
  "MiniaturizationRequestRecord \<Rightarrow> InsuranceTier \<Rightarrow> SettingsRecord \<Rightarrow> HealthBucket \<Rightarrow> real
     \<Rightarrow> BackendError + InsurancePolicyQuote" where
  "quote_engine request tier settings healthBucket availablePoints =
     (if req_scale request < scale_min settings \<or> scale_max settings < req_scale request
      then Inl OutOfRangeError
      else
        (let steps = \<lceil>req_scale request / scale_step settings\<rceil>;
             base_rate_per_step = tier_rate settings tier;
             bucket_multiplier = bucket_rate settings healthBucket;
             monthly_premium = round_cents (of_int steps * base_rate_per_step * bucket_multiplier);
             per_unit = discount_per_unit (points_discount settings);
             units = units_redeemable settings availablePoints;
             uncapped = of_int units * per_unit;
             discount_value_usd = min monthly_premium uncapped;
             units_applied = (if monthly_premium < uncapped
                              then \<lfloor>discount_value_usd / per_unit\<rfloor> else units);
             points_redeemed =
               of_int units_applied * points_per_discount_unit (points_discount settings);
             final_premium = max 0 (monthly_premium - discount_value_usd)
         in Inr \<lparr>q_tier = tier,
                 q_steps = steps,
                 q_base_rate_per_step = base_rate_per_step,
                 q_bucket_multiplier = bucket_multiplier,
                 q_monthly_premium = monthly_premium,
                 q_final_premium = final_premium,
                 q_points_redeemed = points_redeemed,
                 q_discount_value_usd = discount_value_usd,
                 q_points_available = availablePoints\<rparr>))"

text \<open>
  The contract the specification's design notes ask for: the redeemed points,
  converted to units and to dollars, are the discount that was applied.
\<close>

definition points_match_discount :: "SettingsRecord \<Rightarrow> InsurancePolicyQuote \<Rightarrow> bool" where
  "points_match_discount settings q =
     (q_points_redeemed q / points_per_discount_unit (points_discount settings)
        * discount_per_unit (points_discount settings) = q_discount_value_usd q)"

definition whole_units :: "SettingsRecord \<Rightarrow> InsurancePolicyQuote \<Rightarrow> bool" where
  "whole_units settings q =
     (let r = q_points_redeemed q / points_per_discount_unit (points_discount settings)
      in of_int \<lfloor>r\<rfloor> = r)"


text \<open>
  Modelled from the spec: the state the activation state machine works on
  (sections 3 and 4.2), which is the policy ledger of one user with the user's
  balance of memory points, and what an activation takes from its surroundings:
  the clock, a fresh policy id, the next billing date of a row created now, the
  user's health bucket, and whether the caller forces an immediate start.
\<close>

record PolicyLedger =
  led_policies :: "InsurancePolicyRecord list"
  led_available_points :: real

record ActivationEnv =
  env_now :: string
  env_new_policy_id :: string
  env_next_billing_at :: string
  env_health_bucket :: HealthBucket
  env_force_immediate :: bool

text \<open>
  Modelled from the spec: the ``existing active policy'' and the ``already
  scheduled'' policy of a request (the first such row of the ledger), the number
  of rows of a request in a status, and the transition of rows to \<open>cancelled\<close>.
\<close>

definition policy_for :: "PolicyStatus \<Rightarrow> string \<Rightarrow> InsurancePolicyRecord list
    \<Rightarrow> InsurancePolicyRecord option" where
  "policy_for status rid ps = find (\<lambda>p. pol_request_id p = rid \<and> pol_status p = status) ps"

definition count_policies :: "PolicyStatus \<Rightarrow> string \<Rightarrow> InsurancePolicyRecord list \<Rightarrow> nat" where
  "count_policies status rid ps =
     length (filter (\<lambda>p. pol_request_id p = rid \<and> pol_status p = status) ps)"

definition cancel_where ::
  "(InsurancePolicyRecord \<Rightarrow> bool) \<Rightarrow> InsurancePolicyRecord list \<Rightarrow> InsurancePolicyRecord list" where
  "cancel_where P ps = map (\<lambda>p. if P p then p\<lparr>pol_status := cancelled\<rparr> else p) ps"

text \<open>
  Modelled from the spec: the policy row an activation creates, filled from the
  quote; \<open>effective_at\<close> is given by the caller (section 3: ``now'' or the next
  billing boundary).
\<close>

definition new_policy ::
  "ActivationEnv \<Rightarrow> string \<Rightarrow> MiniaturizationRequestRecord \<Rightarrow> InsurancePolicyQuote
     \<Rightarrow> PolicyStatus \<Rightarrow> string \<Rightarrow> InsurancePolicyRecord" where
  "new_policy env uid request q status effective =
     \<lparr>pol_id = env_new_policy_id env,
      pol_user_id = uid,
      pol_request_id = req_id request,
      pol_tier = q_tier q,
      pol_points_redeemed = q_points_redeemed q,
      pol_monthly_premium = q_monthly_premium q,
      pol_final_premium = q_final_premium q,
      pol_status = status,
      pol_created_at = env_now env,
      pol_next_billing_at = env_next_billing_at env,
      pol_effective_at = effective\<rparr>"

text \<open>
  Modelled from the spec: the answer of a no-op activation (section 4.2), which
  ``returns the existing policy unchanged'' and redeems nothing.
\<close>

definition unchanged_response ::
  "InsurancePolicyRecord \<Rightarrow> InsurancePolicyQuote \<Rightarrow> ActivationMode
     \<Rightarrow> InsurancePolicyActivationResponse" where
  "unchanged_response existing q m =
     \<lparr>ar_policy = existing,
      ar_payment = None,
      ar_discount = \<lparr>points_spent = 0, value_usd = 0\<rparr>,
      ar_pricing = q,
      ar_replaced_policy_id = None,
      ar_activation_mode = Some m,
      ar_effective_at = Some (pol_effective_at existing)\<rparr>"

text \<open>
  Modelled from the spec: an activation that is not a no-op (section 4.2).  The
  rows of the request that satisfy \<open>superseded\<close> become \<open>cancelled\<close> (section 3:
  ``superseded policies transition to cancelled''), the new row is appended, and
  the points of the quote are taken from the balance in the same step.  The
  payment that an immediate activation ``may create'' is left out.
\<close>

definition create_policy ::
  "ActivationEnv \<Rightarrow> string \<Rightarrow> MiniaturizationRequestRecord \<Rightarrow> InsurancePolicyQuote
     \<Rightarrow> PolicyStatus \<Rightarrow> string \<Rightarrow> (PolicyStatus \<Rightarrow> bool) \<Rightarrow> string option \<Rightarrow> PolicyLedger
     \<Rightarrow> InsurancePolicyActivationResponse \<times> PolicyLedger" where
  "create_policy env uid request q status effective superseded replaced led =
     (let row = new_policy env uid request q status effective;
          kept = cancel_where
                   (\<lambda>p. pol_request_id p = req_id request \<and> superseded (pol_status p))
                   (led_policies led)
      in (\<lparr>ar_policy = row,
           ar_payment = None,
           ar_discount = \<lparr>points_spent = q_points_redeemed q,
                           value_usd = q_discount_value_usd q\<rparr>,
           ar_pricing = q,
           ar_replaced_policy_id = replaced,
           ar_activation_mode =
             Some (if status = scheduled then scheduled_mode else immediate),
           ar_effective_at = Some effective\<rparr>,
          \<lparr>led_policies = kept @ [row],
           led_available_points = led_available_points led - q_points_redeemed q\<rparr>))"

text \<open>
  Modelled from the spec: \<open>activate(user, request, tier, settings)\<close> of section
  4.2, the part of the backend behind \<open>POST /users/{id}/insurance\<close>.  In the order
  of the specification: the eligibility precondition; an immediate activation
  when no active policy exists for the request or the caller forces it, which
  cancels the active row and replaces a scheduled one; the no-op for the tier that
  is active; the no-op for the tier that is scheduled; otherwise a scheduled row
  that takes effect at the active policy's \<open>next_billing_at\<close> and replaces an
  earlier schedule, the active row staying as it is.  The payload of the user's
  endpoint carries a request and a tier only, so a user never forces a start.
\<close>

definition activate ::
  "ActivationEnv \<Rightarrow> SettingsRecord \<Rightarrow> string \<Rightarrow> MiniaturizationRequestRecord \<Rightarrow> InsuranceTier
     \<Rightarrow> PolicyLedger \<Rightarrow> BackendError + (InsurancePolicyActivationResponse \<times> PolicyLedger)" where
  "activate env settings uid request tier led =
     (if req_status request \<noteq> approved \<and> req_status request \<noteq> completed
      then Inl RequestNotEligibleError
      else
        (case quote_engine request tier settings (env_health_bucket env)
                (led_available_points led) of
           Inl e \<Rightarrow> Inl e
         | Inr q \<Rightarrow>
             (let rid = req_id request;
                  current = policy_for active rid (led_policies led);
                  pending = policy_for scheduled rid (led_policies led)
              in case current of
                   None \<Rightarrow>
                     Inr (create_policy env uid request q active (env_now env)
                            (\<lambda>st. st = active \<or> st = scheduled) None led)
                 | Some a \<Rightarrow>
                     if env_force_immediate env then
                       Inr (create_policy env uid request q active (env_now env)
                              (\<lambda>st. st = active \<or> st = scheduled) (Some (pol_id a)) led)
                     else if pol_tier a = tier then Inr (unchanged_response a q immediate, led)
                     else
                       (case pending of
                          Some s \<Rightarrow>
                            if pol_tier s = tier
                            then Inr (unchanged_response s q scheduled_mode, led)
                            else Inr (create_policy env uid request q scheduled
                                        (pol_next_billing_at a) (\<lambda>st. st = scheduled)
                                        (Some (pol_id s)) led)
                        | None \<Rightarrow>
                            Inr (create_policy env uid request q scheduled
                                   (pol_next_billing_at a) (\<lambda>st. st = scheduled) None led)))))"

text \<open>
  Modelled from the spec: the billing-cycle process of section 4.2, which
  ``promotes the scheduled policy to active and cancels the old one'', row by row
  and for the ledger of a request that has a scheduled policy.
\<close>

definition promote_row :: "string \<Rightarrow> InsurancePolicyRecord \<Rightarrow> InsurancePolicyRecord" where
  "promote_row rid p =
     (if pol_request_id p = rid \<and> pol_status p = active then p\<lparr>pol_status := cancelled\<rparr>
      else if pol_request_id p = rid \<and> pol_status p = scheduled then p\<lparr>pol_status := active\<rparr>
      else p)"

definition promote_scheduled :: "string \<Rightarrow> PolicyLedger \<Rightarrow> PolicyLedger" where
  "promote_scheduled rid led =
     (case policy_for scheduled rid (led_policies led) of
        None \<Rightarrow> led
      | Some s \<Rightarrow> led\<lparr>led_policies := map (promote_row rid) (led_policies led)\<rparr>)"

text \<open>
  Modelled from the spec: the ledgers that can arise, which are the empty ledger
  with any balance and what successful activations and billing cycles make of a
  ledger that can arise.
\<close>

inductive reachable :: "PolicyLedger \<Rightarrow> bool" where
  reachable_empty: "reachable \<lparr>led_policies = [], led_available_points = pts\<rparr>"
| reachable_activate:
    "reachable led \<Longrightarrow> activate env settings uid request tier led = Inr (response, led')
       \<Longrightarrow> reachable led'"
| reachable_promote: "reachable led \<Longrightarrow> reachable (promote_scheduled rid led)"

text \<open>
  The core invariant of section 3: at most one \<open>active\<close> and at most one \<open>scheduled\<close>
  policy per request.
\<close>

abbreviation at_most_one :: "InsurancePolicyRecord list \<Rightarrow> bool" where
  "at_most_one ps \<equiv>
     \<forall>rid. count_policies active rid ps \<le> 1 \<and> count_policies scheduled rid ps \<le> 1"

text \<open>
  A scheduled policy takes effect at the next billing date of the active policy of
  its request.
\<close>

abbreviation schedule_consistent :: "InsurancePolicyRecord list \<Rightarrow> bool" where
  "schedule_consistent ps \<equiv>
     \<forall>a s. a \<in> set ps \<and> s \<in> set ps \<and> pol_status a = active \<and> pol_status s = scheduled
           \<and> pol_request_id a = pol_request_id s
       \<longrightarrow> pol_effective_at s = pol_next_billing_at a"


section \<open>Scenarios\<close>

text \<open>Concrete inputs, from the scenarios of the specification where it has one.\<close>

text \<open>Scenario D: a verified user without a body profile.\<close>

definition scenario_D :: UserOverview where
  "scenario_D =
     \<lparr>user = \<lparr>usr_id = ''u1'', usr_email = ''u1@example.org'', body_profile = None,
              usr_status = verified, current_stage = stage_verified\<rparr>,
      requests = [], payments = [], dna_tokens = [], miniaturization_tokens = [],
      insurance_policies = []\<rparr>"

text \<open>A user who has just signed up and is not verified yet.\<close>

definition new_user_overview :: UserOverview where
  "new_user_overview =
     \<lparr>user = \<lparr>usr_id = ''u0'', usr_email = ''u0@example.org'', body_profile = None,
              usr_status = pending_verification, current_stage = stage_signup\<rparr>,
      requests = [], payments = [], dna_tokens = [], miniaturization_tokens = [],
      insurance_policies = []\<rparr>"

text \<open>A verified user with a body profile whose only request was rejected.\<close>

definition rejected_request :: MiniaturizationRequestRecord where
  "rejected_request =
     \<lparr>req_id = ''r1'', req_user_id = ''u1'', req_scale = 1 / 10, req_cost_usd = 200,
      req_status = rejected\<rparr>"

definition overview_after_rejection :: UserOverview where
  "overview_after_rejection =
     \<lparr>user = \<lparr>usr_id = ''u1'', usr_email = ''u1@example.org'',
              body_profile = Some \<lparr>height_cm = 172, weight_kg = None, blood_type = None\<rparr>,
              usr_status = verified, current_stage = stage_request_submitted\<rparr>,
      requests = [rejected_request], payments = [], dna_tokens = [],
      miniaturization_tokens = [], insurance_policies = []\<rparr>"

text \<open>
  A resumed session of user \<open>u1\<close>, whose overview on the server is that of
  Scenario D.
\<close>

definition resume_props :: UserJourneyProps where
  "resume_props = \<lparr>mode = mode_resume, has_onComplete = True\<rparr>"

definition fetch_scenario_D :: "string \<Rightarrow> UserOverview ApiResult" where
  "fetch_scenario_D uid = (if uid = ''u1'' then Ok scenario_D else Failed ''not found'')"

text \<open>
  The enrollment page of a user with a request awaiting approval and an approved
  request \<open>R\<close>, and a quote with the numbers of Scenario A.
\<close>

definition request_R :: MiniaturizationRequestRecord where
  "request_R =
     \<lparr>req_id = ''R'', req_user_id = ''u1'', req_scale = 1 / 10, req_cost_usd = 200,
      req_status = approved\<rparr>"

definition request_pending :: MiniaturizationRequestRecord where
  "request_pending =
     \<lparr>req_id = ''P'', req_user_id = ''u1'', req_scale = 1 / 10, req_cost_usd = 200,
      req_status = awaiting_approval\<rparr>"

definition quote_A :: "InsuranceTier \<Rightarrow> InsurancePolicyQuote" where
  "quote_A t =
     \<lparr>q_tier = t, q_steps = 10, q_base_rate_per_step = 20, q_bucket_multiplier = 1,
      q_monthly_premium = 200, q_final_premium = 175, q_points_redeemed = 500,
      q_discount_value_usd = 25, q_points_available = 500\<rparr>"

definition enrollment_overview :: UserOverview where
  "enrollment_overview =
     \<lparr>user = \<lparr>usr_id = ''u1'', usr_email = ''u1@example.org'',
              body_profile = Some \<lparr>height_cm = 172, weight_kg = None, blood_type = None\<rparr>,
              usr_status = verified, current_stage = stage_payment_captured\<rparr>,
      requests = [request_pending, request_R], payments = [], dna_tokens = [],
      miniaturization_tokens = [], insurance_policies = []\<rparr>"

definition enrollment_state :: "string \<Rightarrow> EnrollmentState" where
  "enrollment_state rid =
     \<lparr>overview = Some enrollment_overview, loading = False, load_error = None,
      selectedRequestId = rid, selectedTier = basic, quote = None, quoteEligible = False,
      quoteStatus = None, activePolicyTier = None, activationMode = None, effectiveAt = None,
      scheduledPolicyTier = None, previewLoading = False, previewError = None,
      activationSaving = False, activationFeedback = None, activationError = None\<rparr>"

definition ineligible_preview :: InsurancePolicyQuoteResponse where
  "ineligible_preview =
     \<lparr>qr_quote = quote_A basic, qr_has_active_policy = False, qr_eligible = False,
      qr_request_status = awaiting_approval, qr_active_policy_tier = None,
      qr_activation_mode = None, qr_effective_at = None, qr_scheduled_policy_tier = None\<rparr>"

text \<open>
  The settings of Scenario A, and the ledger of Scenario C: user \<open>u1\<close> starts with
  500 points, activates \<open>basic\<close> on request \<open>R\<close> in January and asks for \<open>plus\<close>
  five days later.
\<close>

definition scenario_settings :: SettingsRecord where
  "scenario_settings =
     \<lparr>pricing_per_step = 20, scale_min = 1 / 100, scale_max = 1, scale_step = 1 / 100,
      insurance_pricing = \<lparr>price_basic = 20, price_plus = 35, price_premium = 50, price_ultra = 80\<rparr>,
      health_bucket_multipliers =
        \<lparr>mult_good = 1, mult_normal = 6 / 5, mult_unhealthy = 3 / 2, mult_extremely_unhealthy = 2\<rparr>,
      points_discount = \<lparr>points_per_discount_unit = 100, discount_per_unit = 5\<rparr>\<rparr>"

definition env_january :: ActivationEnv where
  "env_january =
     \<lparr>env_now = ''2026-01-15T00:00:00Z'', env_new_policy_id = ''pol-1'',
      env_next_billing_at = ''2026-02-15T00:00:00Z'', env_health_bucket = good,
      env_force_immediate = False\<rparr>"

definition env_late_january :: ActivationEnv where
  "env_late_january =
     \<lparr>env_now = ''2026-01-20T00:00:00Z'', env_new_policy_id = ''pol-2'',
      env_next_billing_at = ''2026-02-20T00:00:00Z'', env_health_bucket = good,
      env_force_immediate = False\<rparr>"

definition basic_policy_R :: InsurancePolicyRecord where
  "basic_policy_R =
     \<lparr>pol_id = ''pol-1'', pol_user_id = ''u1'', pol_request_id = ''R'', pol_tier = basic,
      pol_points_redeemed = 500, pol_monthly_premium = 200, pol_final_premium = 175,
      pol_status = active, pol_created_at = ''2026-01-15T00:00:00Z'',
      pol_next_billing_at = ''2026-02-15T00:00:00Z'',
      pol_effective_at = ''2026-01-15T00:00:00Z''\<rparr>"

definition plus_policy_R :: InsurancePolicyRecord where
  "plus_policy_R =
     \<lparr>pol_id = ''pol-2'', pol_user_id = ''u1'', pol_request_id = ''R'', pol_tier = plus_tier,
      pol_points_redeemed = 0, pol_monthly_premium = 350, pol_final_premium = 350,
      pol_status = scheduled, pol_created_at = ''2026-01-20T00:00:00Z'',
      pol_next_billing_at = ''2026-02-20T00:00:00Z'',
      pol_effective_at = ''2026-02-15T00:00:00Z''\<rparr>"

definition ledger_A :: PolicyLedger where
  "ledger_A = \<lparr>led_policies = [], led_available_points = 500\<rparr>"

definition ledger_C :: PolicyLedger where
  "ledger_C = \<lparr>led_policies = [basic_policy_R], led_available_points = 0\<rparr>"

definition ledger_C_scheduled :: PolicyLedger where
  "ledger_C_scheduled =
     \<lparr>led_policies = [basic_policy_R, plus_policy_R], led_available_points = 0\<rparr>"

text \<open>
  In February the user asks for \<open>premium\<close> instead: the schedule for \<open>plus\<close> is
  replaced.  The overview the page sees while \<open>plus\<close> is scheduled lists the
  ledger's policies.
\<close>

definition env_february :: ActivationEnv where
  "env_february =
     \<lparr>env_now = ''2026-02-01T00:00:00Z'', env_new_policy_id = ''pol-3'',
      env_next_billing_at = ''2026-03-01T00:00:00Z'', env_health_bucket = good,
      env_force_immediate = False\<rparr>"

definition premium_policy_R :: InsurancePolicyRecord where
  "premium_policy_R =
     \<lparr>pol_id = ''pol-3'', pol_user_id = ''u1'', pol_request_id = ''R'', pol_tier = premium,
      pol_points_redeemed = 0, pol_monthly_premium = 500, pol_final_premium = 500,
      pol_status = scheduled, pol_created_at = ''2026-02-01T00:00:00Z'',
      pol_next_billing_at = ''2026-03-01T00:00:00Z'',
      pol_effective_at = ''2026-02-15T00:00:00Z''\<rparr>"

definition ledger_C_rescheduled :: PolicyLedger where
  "ledger_C_rescheduled =
     \<lparr>led_policies = [basic_policy_R, plus_policy_R\<lparr>pol_status := cancelled\<rparr>, premium_policy_R],
      led_available_points = 0\<rparr>"

definition quote_premium :: InsurancePolicyQuote where
  "quote_premium =
     \<lparr>q_tier = premium, q_steps = 10, q_base_rate_per_step = 50, q_bucket_multiplier = 1,
      q_monthly_premium = 500, q_final_premium = 500, q_points_redeemed = 0,
      q_discount_value_usd = 0, q_points_available = 0\<rparr>"

definition reschedule_response :: InsurancePolicyActivationResponse where
  "reschedule_response =
     \<lparr>ar_policy = premium_policy_R, ar_payment = None,
      ar_discount = \<lparr>points_spent = 0, value_usd = 0\<rparr>,
      ar_pricing = quote_premium, ar_replaced_policy_id = Some ''pol-2'',
      ar_activation_mode = Some scheduled_mode,
      ar_effective_at = Some ''2026-02-15T00:00:00Z''\<rparr>"

definition overview_C_scheduled :: UserOverview where
  "overview_C_scheduled =
     enrollment_overview\<lparr>insurance_policies := led_policies ledger_C_scheduled\<rparr>"

text \<open>
  The answer to the request for \<open>plus\<close>, the quote for asking for \<open>basic\<close> once
  more, the page of that user after a preview of tier \<open>t\<close> on request \<open>R\<close>, and
  stand-ins for the two formatting functions of the page.
\<close>

definition quote_plus :: InsurancePolicyQuote where
  "quote_plus =
     \<lparr>q_tier = plus_tier, q_steps = 10, q_base_rate_per_step = 35, q_bucket_multiplier = 1,
      q_monthly_premium = 350, q_final_premium = 350, q_points_redeemed = 0,
      q_discount_value_usd = 0, q_points_available = 0\<rparr>"

definition schedule_response :: InsurancePolicyActivationResponse where
  "schedule_response =
     \<lparr>ar_policy = plus_policy_R, ar_payment = None,
      ar_discount = \<lparr>points_spent = 0, value_usd = 0\<rparr>,
      ar_pricing = quote_plus, ar_replaced_policy_id = None,
      ar_activation_mode = Some scheduled_mode,
      ar_effective_at = Some ''2026-02-15T00:00:00Z''\<rparr>"

definition quote_basic_again :: InsurancePolicyQuote where
  "quote_basic_again =
     \<lparr>q_tier = basic, q_steps = 10, q_base_rate_per_step = 20, q_bucket_multiplier = 1,
      q_monthly_premium = 200, q_final_premium = 200, q_points_redeemed = 0,
      q_discount_value_usd = 0, q_points_available = 0\<rparr>"

definition enrollment_state_C :: "InsuranceTier \<Rightarrow> EnrollmentState" where
  "enrollment_state_C t =
     \<lparr>overview = Some (enrollment_overview\<lparr>insurance_policies := led_policies ledger_C\<rparr>),
      loading = False, load_error = None,
      selectedRequestId = ''R'', selectedTier = t,
      quote = Some (if t = basic then quote_basic_again else quote_plus),
      quoteEligible = True, quoteStatus = Some approved, activePolicyTier = Some basic,
      activationMode = Some (if t = basic then immediate else scheduled_mode),
      effectiveAt = (if t = basic then None else Some ''2026-02-15T00:00:00Z''),
      scheduledPolicyTier = None, previewLoading = False, previewError = None,
      activationSaving = False, activationFeedback = None, activationError = None\<rparr>"

text \<open>
  The preview of \<open>basic\<close> on request \<open>R\<close> while \<open>plus\<close> is scheduled: the tier is the
  active one.
\<close>

definition preview_basic_again :: InsurancePolicyQuoteResponse where
  "preview_basic_again =
     \<lparr>qr_quote = quote_basic_again, qr_has_active_policy = True, qr_eligible = True,
      qr_request_status = approved, qr_active_policy_tier = Some basic,
      qr_activation_mode = Some immediate, qr_effective_at = None,
      qr_scheduled_policy_tier = Some plus_tier\<rparr>"

definition show_date :: "string \<Rightarrow> string" where
  "show_date d = take 10 d"

definition show_usd :: "real \<Rightarrow> string" where
  "show_usd v = (if v = 350 then ''$350.00'' else ''$?'')"



definition settings_22 :: SettingsRecord where
  "settings_22 =
     scenario_settings\<lparr>insurance_pricing := (insurance_pricing scenario_settings)\<lparr>price_basic := 22\<rparr>\<rparr>"


text \<open>An admin types \<open>-3\<close>, changes the discount, and types \<open>2.5\<close>.\<close>

definition admin_edits :: "FormEdit list" where
  "admin_edits = [EditPointsPerUnit (- 3), EditDiscountPerUnit 7, EditPointsPerUnit (5 / 2)]"


section \<open>Properties of the journey stage resolver\<close>

text \<open>
  Claim C1.  For every overview the resolver returns the first stage that matches
  in the fixed order: \<open>verify\<close> unless the user is verified, then \<open>intake\<close> without
  a body profile, \<open>mini\<close> without a request, \<open>payment\<close> without a payment,
  \<open>assessment\<close> without a DNA token, \<open>token\<close> without a miniaturization token, and
  \<open>complete\<close> otherwise.  In particular a verified user without a body profile is
  at \<open>intake\<close>.
\<close>

theorem resolveJourneyStep_order:
  "resolveJourneyStep ov =
     (if usr_status (user ov) \<noteq> verified then verify
      else if body_profile (user ov) = None then intake
      else if requests ov = [] then mini
      else if payments ov = [] then payment
      else if dna_tokens ov = [] then assessment
      else if miniaturization_tokens ov = [] then token
      else complete_step)
   \<and> (usr_status (user ov) = verified \<and> body_profile (user ov) = None
        \<longrightarrow> resolveJourneyStep ov = intake)"
  by (simp add: resolveJourneyStep_def Let_def)

theorem resolveJourneyStep_order_witness:
  "usr_status (user scenario_D) = verified \<and> body_profile (user scenario_D) = None
   \<and> resolveJourneyStep scenario_D = intake"
  using resolveJourneyStep_order [of scenario_D] by (simp add: scenario_D_def)

text \<open>The resolver takes each step other than \<open>signup\<close>, and only those.\<close>

lemma range_resolveJourneyStep:
  "range resolveJourneyStep = {verify, intake, mini, payment, assessment, token, complete_step}"
proof
  show "range resolveJourneyStep
          \<subseteq> {verify, intake, mini, payment, assessment, token, complete_step}"
    by (auto simp: resolveJourneyStep_def Let_def)
next
  let ?b = "Some \<lparr>height_cm = 172, weight_kg = None, blood_type = None\<rparr>"
  let ?r = "\<lparr>req_id = ''r'', req_user_id = ''u'', req_scale = 1, req_cost_usd = 1,
             req_status = draft\<rparr>"
  let ?p = "\<lparr>pay_id = ''p'', pay_request_id = ''r'', pay_amount_usd = 1\<rparr>"
  let ?d = "\<lparr>dna_id = ''d'', dna_user_id = ''u''\<rparr>"
  let ?t = "\<lparr>mtok_id = ''t'', mtok_request_id = ''r'', mtok_status = draft\<rparr>"
  let ?ov = "\<lambda>s b rs ps ds ts.
               \<lparr>user = \<lparr>usr_id = ''u'', usr_email = ''e'', body_profile = b, usr_status = s,
                        current_stage = stage_signup\<rparr>,
                requests = rs, payments = ps, dna_tokens = ds, miniaturization_tokens = ts,
                insurance_policies = []\<rparr>"
  have "resolveJourneyStep (?ov pending_verification None [] [] [] []) = verify"
       "resolveJourneyStep (?ov verified None [] [] [] []) = intake"
       "resolveJourneyStep (?ov verified ?b [] [] [] []) = mini"
       "resolveJourneyStep (?ov verified ?b [?r] [] [] []) = payment"
       "resolveJourneyStep (?ov verified ?b [?r] [?p] [] []) = assessment"
       "resolveJourneyStep (?ov verified ?b [?r] [?p] [?d] []) = token"
       "resolveJourneyStep (?ov verified ?b [?r] [?p] [?d] [?t]) = complete_step"
    by (simp_all add: resolveJourneyStep_def)
  then show "{verify, intake, mini, payment, assessment, token, complete_step}
               \<subseteq> range resolveJourneyStep"
    by (metis (no_types, lifting) insert_subset empty_subsetI rangeI)
qed

text \<open>
  Claim C8.  The resolver is a total function of the overview into the stage
  enumeration, and the stages it returns are seven: every member of the
  \<open>JourneyStep\<close> union other than \<open>signup\<close>, which the page uses only for a session
  that has no account yet (\<open>signup\<close> and \<open>verify\<close> collapse into \<open>verify\<close>).  It is
  deterministic, and reads nothing but the overview: two overviews that agree on
  the user's status, on whether there is a body profile, and on whether each of
  the four lists is empty are at the same stage, so in particular the same
  snapshot always gives the same stage.  A user whose status is not \<open>verified\<close> is
  at \<open>verify\<close>.
\<close>

theorem resolveJourneyStep_total_deterministic:
  "range resolveJourneyStep = set all_journey_steps - {signup}
   \<and> card (range resolveJourneyStep) = 7
   \<and> (usr_status (user ov) = usr_status (user ov')
        \<and> (body_profile (user ov) = None \<longleftrightarrow> body_profile (user ov') = None)
        \<and> (requests ov = [] \<longleftrightarrow> requests ov' = [])
        \<and> (payments ov = [] \<longleftrightarrow> payments ov' = [])
        \<and> (dna_tokens ov = [] \<longleftrightarrow> dna_tokens ov' = [])
        \<and> (miniaturization_tokens ov = [] \<longleftrightarrow> miniaturization_tokens ov' = [])
        \<longrightarrow> resolveJourneyStep ov = resolveJourneyStep ov')
   \<and> (usr_status (user ov) \<noteq> verified \<longrightarrow> resolveJourneyStep ov = verify)"
proof (intro conjI impI)
  show "range resolveJourneyStep = set all_journey_steps - {signup}"
    unfolding range_resolveJourneyStep by (auto simp: all_journey_steps_def)
  show "card (range resolveJourneyStep) = 7"
    unfolding range_resolveJourneyStep by simp
  show "resolveJourneyStep ov = resolveJourneyStep ov'"
    if "usr_status (user ov) = usr_status (user ov')
        \<and> (body_profile (user ov) = None \<longleftrightarrow> body_profile (user ov') = None)
        \<and> (requests ov = [] \<longleftrightarrow> requests ov' = [])
        \<and> (payments ov = [] \<longleftrightarrow> payments ov' = [])
        \<and> (dna_tokens ov = [] \<longleftrightarrow> dna_tokens ov' = [])
        \<and> (miniaturization_tokens ov = [] \<longleftrightarrow> miniaturization_tokens ov' = [])"
    unfolding resolveJourneyStep_def Let_def using that by simp
  show "resolveJourneyStep ov = verify" if "usr_status (user ov) \<noteq> verified"
    using that by (simp add: resolveJourneyStep_def)
qed

theorem resolveJourneyStep_total_deterministic_witness:
  "usr_status (user new_user_overview) \<noteq> verified
   \<and> resolveJourneyStep new_user_overview = verify
   \<and> resolveJourneyStep (new_user_overview\<lparr>insurance_policies := [basic_policy_R]\<rparr>)
       = resolveJourneyStep new_user_overview
   \<and> card (range resolveJourneyStep) = 7"
proof -
  have unverified: "usr_status (user new_user_overview) \<noteq> verified"
    by (simp add: new_user_overview_def)
  note inst = resolveJourneyStep_total_deterministic
         [of new_user_overview "new_user_overview\<lparr>insurance_policies := [basic_policy_R]\<rparr>"]
  from inst have card7: "card (range resolveJourneyStep) = 7" by (elim conjE)
  from inst have verify: "usr_status (user new_user_overview) \<noteq> verified
           \<longrightarrow> resolveJourneyStep new_user_overview = verify" by (elim conjE)
  from inst have same: "usr_status (user new_user_overview)
          = usr_status (user (new_user_overview\<lparr>insurance_policies := [basic_policy_R]\<rparr>))
        \<and> (body_profile (user new_user_overview) = None
             \<longleftrightarrow> body_profile (user (new_user_overview\<lparr>insurance_policies := [basic_policy_R]\<rparr>)) = None)
        \<and> (requests new_user_overview = []
             \<longleftrightarrow> requests (new_user_overview\<lparr>insurance_policies := [basic_policy_R]\<rparr>) = [])
        \<and> (payments new_user_overview = []
             \<longleftrightarrow> payments (new_user_overview\<lparr>insurance_policies := [basic_policy_R]\<rparr>) = [])
        \<and> (dna_tokens new_user_overview = []
             \<longleftrightarrow> dna_tokens (new_user_overview\<lparr>insurance_policies := [basic_policy_R]\<rparr>) = [])
        \<and> (miniaturization_tokens new_user_overview = []
             \<longleftrightarrow> miniaturization_tokens (new_user_overview\<lparr>insurance_policies := [basic_policy_R]\<rparr>) = [])
        \<longrightarrow> resolveJourneyStep new_user_overview
           = resolveJourneyStep (new_user_overview\<lparr>insurance_policies := [basic_policy_R]\<rparr>)"
    by (elim conjE)
  have "resolveJourneyStep new_user_overview
           = resolveJourneyStep (new_user_overview\<lparr>insurance_policies := [basic_policy_R]\<rparr>)"
    by (rule same [rule_format]) simp
  with unverified verify card7 show ?thesis by simp
qed

text \<open>
  Claim C9.  An overview with at least one miniaturization request, whatever its
  status, never resolves to \<open>mini\<close>; and turning the requests into rejected ones
  does not change the resolved step.
\<close>

theorem has_request_never_mini:
  "r \<in> set (requests ov) \<Longrightarrow>
     resolveJourneyStep ov \<noteq> mini
     \<and> resolveJourneyStep (ov\<lparr>requests := map (\<lambda>q. q\<lparr>req_status := rejected\<rparr>) (requests ov)\<rparr>)
         = resolveJourneyStep ov"
  by (cases "requests ov") (auto simp: resolveJourneyStep_def Let_def)

theorem has_request_never_mini_witness:
  "rejected_request \<in> set (requests overview_after_rejection)
   \<and> req_status rejected_request = rejected
   \<and> resolveJourneyStep overview_after_rejection \<noteq> mini"
  using has_request_never_mini [of rejected_request overview_after_rejection]
  by (simp add: overview_after_rejection_def rejected_request_def)


section \<open>Properties of the onboarding workflow\<close>

lemma step_hydrateFromOverview:
  "step (hydrateFromOverview props data context st) = resolveJourneyStep data"
  by (simp add: hydrateFromOverview_def Let_def log_status_def)

lemma userId_handlerSucceeded: "userId (handlerSucceeded props h st) = userId st"
  by (cases h) (simp_all add: log_status_def Let_def)

lemma handlerGuard_userId: "\<not> handlerGuardFails h st \<Longrightarrow> \<not> falsy (userId st)"
  by (cases h) simp_all

text \<open>
  Claim C7.  Whenever the workflow hydrates from a fetched overview, the step
  becomes the resolver's answer for that overview, whatever step the component
  held: in \<open>hydrateFromOverview\<close> itself, in \<open>refreshOverview\<close> when the fetch
  succeeds (the initial load of a resumed session and every later refetch), and
  at the end of each submit handler whose request and refetch succeed.
\<close>

theorem hydrate_sets_resolved_step:
  "step (hydrateFromOverview props data context st) = resolveJourneyStep data
   \<and> (\<not> falsy (userId st) \<and> fetch (the (userId st)) = Ok data
        \<longrightarrow> step (refreshOverview props fetch context st) = resolveJourneyStep data)
   \<and> (\<not> handlerGuardFails h st \<and> fetch (the (userId st)) = Ok data
        \<longrightarrow> step (runHandler props fetch h None st) = resolveJourneyStep data)"
proof (intro conjI impI)
  show "step (hydrateFromOverview props data context st) = resolveJourneyStep data"
    by (rule step_hydrateFromOverview)
next
  assume "\<not> falsy (userId st) \<and> fetch (the (userId st)) = Ok data"
  then show "step (refreshOverview props fetch context st) = resolveJourneyStep data"
    by (simp add: refreshOverview_def step_hydrateFromOverview)
next
  assume a: "\<not> handlerGuardFails h st \<and> fetch (the (userId st)) = Ok data"
  then have "\<not> falsy (userId st)" using handlerGuard_userId by blast
  with a show "step (runHandler props fetch h None st) = resolveJourneyStep data"
    by (simp add: runHandler_def refreshOverview_def userId_handlerSucceeded
        step_hydrateFromOverview)
qed

text \<open>
  In a resumed session the intake handler sets the step to \<open>mini\<close>; the overview
  that comes back still has no body profile, and the step is \<open>intake\<close> again.
\<close>

theorem hydrate_sets_resolved_step_witness:
  "step (handlerSucceeded resume_props (IntakeRun ''82'' ''good'')
           (initialJourneyState resume_props (Some ''u1''))) = mini
   \<and> step (runHandler resume_props fetch_scenario_D (IntakeRun ''82'' ''good'') None
             (initialJourneyState resume_props (Some ''u1''))) = intake
   \<and> step (refreshOverview resume_props fetch_scenario_D ctx_initial
             (initialJourneyState resume_props (Some ''u1''))) = intake"
  using hydrate_sets_resolved_step [of resume_props scenario_D ctx_initial
          "initialJourneyState resume_props (Some ''u1'')" fetch_scenario_D
          "IntakeRun ''82'' ''good''"]
  by (simp add: initialJourneyState_def falsy_def fetch_scenario_D_def scenario_D_def
      resolveJourneyStep_def)


section \<open>Properties of the insurance enrollment page\<close>

lemma set_eligibleRequests:
  "set (eligibleRequests ov) =
     {r \<in> set (requests_of ov). req_status r = approved \<or> req_status r = completed}"
  by (auto simp: eligibleRequests_def Let_def)

lemma syncSelectedRequest_eligible:
  "selectedRequestId (syncSelectedRequest st) = []
   \<or> selectedRequestId (syncSelectedRequest st) \<in> req_id ` set (eligibleRequests (overview st))"
proof (cases "eligibleRequests (overview st)")
  case Nil
  then show ?thesis by (simp add: syncSelectedRequest_def)
next
  case (Cons first rest)
  show ?thesis
  proof (cases "selectedRequestId st \<noteq> []
                 \<and> list_ex (\<lambda>request. req_id request = selectedRequestId st) (first # rest)")
    case True
    then obtain request where "request \<in> set (first # rest)"
      and "req_id request = selectedRequestId st"
      unfolding list_ex_iff by blast
    then have "selectedRequestId st \<in> req_id ` set (first # rest)"
      by (metis imageI)
    moreover from True have "syncSelectedRequest st = st"
      unfolding syncSelectedRequest_def Let_def Cons list.case by (rule if_P)
    ultimately show ?thesis using Cons by simp
  next
    case False
    then have "syncSelectedRequest st = st\<lparr>selectedRequestId := req_id first\<rparr>"
      unfolding syncSelectedRequest_def Let_def Cons list.case by (rule if_not_P)
    then show ?thesis using Cons by simp
  qed
qed

lemma preview_ineligible:
  assumes "selectedRequestId st \<noteq> []" "\<not> qr_eligible r"
  shows "infoMessage formatDate (previewEffect (Ok r) st) =
           Some (''Request status is '' @ underscores_to_spaces (status_name (qr_request_status r))
                 @ ''. Coverage activates once approval completes.'')"
    and "disableActivate (previewEffect (Ok r) st)"
    and "previewError (previewEffect (Ok r) st) = None"
    and "activationError (previewEffect (Ok r) st) = activationError st"
  using assms by (simp_all add: previewEffect_def infoMessage_def disableActivate_def Let_def)

text \<open>
  Claim C5.  The enrollment form offers exactly the requests whose status is
  \<open>approved\<close> or \<open>completed\<close>, and the selection it keeps is empty or one of
  them; the Activate button is enabled only for a preview that is eligible; and a
  preview that reports the request ineligible ends with the informational message
  about the request status, the button disabled, and no preview or activation
  error set.
\<close>

theorem eligibility_is_informational:
  "set (eligibleRequests ov) =
     {r \<in> set (requests_of ov). req_status r = approved \<or> req_status r = completed}
   \<and> (selectedRequestId (syncSelectedRequest st) = []
        \<or> selectedRequestId (syncSelectedRequest st)
             \<in> req_id ` set (eligibleRequests (overview st)))
   \<and> (\<not> disableActivate st \<longrightarrow> quoteEligible st)
   \<and> (selectedRequestId st \<noteq> [] \<and> \<not> qr_eligible r \<longrightarrow>
        infoMessage formatDate (previewEffect (Ok r) st) =
          Some (''Request status is ''
                @ underscores_to_spaces (status_name (qr_request_status r))
                @ ''. Coverage activates once approval completes.'')
        \<and> disableActivate (previewEffect (Ok r) st)
        \<and> previewError (previewEffect (Ok r) st) = None
        \<and> activationError (previewEffect (Ok r) st) = activationError st)"
  using set_eligibleRequests [of ov] syncSelectedRequest_eligible [of st]
    preview_ineligible [of st r]
  by (simp add: disableActivate_def)

theorem eligibility_is_informational_witness:
  "eligibleRequests (Some enrollment_overview) = [request_R]
   \<and> selectedRequestId (syncSelectedRequest (enrollment_state ''P'')) = ''R''
   \<and> infoMessage id (previewEffect (Ok ineligible_preview) (enrollment_state ''P'')) =
       Some ''Request status is awaiting approval. Coverage activates once approval completes.''
   \<and> disableActivate (previewEffect (Ok ineligible_preview) (enrollment_state ''P''))
   \<and> previewError (previewEffect (Ok ineligible_preview) (enrollment_state ''P'')) = None"
  using eligibility_is_informational
          [of "Some enrollment_overview" "enrollment_state ''P''" ineligible_preview id]
  by (simp add: enrollment_state_def ineligible_preview_def enrollment_overview_def
      request_R_def request_pending_def eligibleRequests_def requests_of_def
      syncSelectedRequest_def underscores_to_spaces_def)

text \<open>
  The two maps of the page hold, for each request, the last policy of the list
  with that request and status.
\<close>

lemma find_snoc:
  "find P (xs @ [x]) = (case find P xs of None \<Rightarrow> (if P x then Some x else None) | Some a \<Rightarrow> Some a)"
  by (induction xs) auto

lemma foldl_by_request:
  "foldl (\<lambda>mapping policy.
            if pol_status policy = s then mapping(pol_request_id policy \<mapsto> policy) else mapping)
         m0 ps rid
   = (case find (\<lambda>p. pol_request_id p = rid \<and> pol_status p = s) (rev ps) of
        Some p \<Rightarrow> Some p
      | None \<Rightarrow> m0 rid)"
  by (induction ps rule: rev_induct) auto

lemma policiesByRequest_find:
  "policiesByRequest ov rid = policy_for active rid (rev (policies_of ov))"
  by (simp add: policiesByRequest_def policy_for_def foldl_by_request split: option.splits)

lemma scheduledPoliciesByRequest_find:
  "scheduledPoliciesByRequest ov rid = policy_for scheduled rid (rev (policies_of ov))"
  by (simp add: scheduledPoliciesByRequest_def policy_for_def foldl_by_request
      split: option.splits)

lemma find_rev_unique:
  "length (filter P ps) \<le> 1 \<Longrightarrow> find P (rev ps) = find P ps"
proof (induction ps)
  case Nil
  then show ?case by simp
next
  case (Cons x xs)
  show ?case
  proof (cases "P x")
    case True
    with Cons.prems have "filter P xs = []" by simp
    then have "find P (rev xs) = None"
      by (simp add: find_None_iff filter_empty_conv)
    with True show ?thesis by (simp add: find_snoc)
  next
    case False
    with Cons show ?thesis by (simp add: find_snoc split: option.splits)
  qed
qed


section \<open>Properties of the policy ledger\<close>

lemma policy_for_rev:
  "count_policies s rid ps \<le> 1 \<Longrightarrow> policy_for s rid (rev ps) = policy_for s rid ps"
  unfolding count_policies_def policy_for_def by (rule find_rev_unique)

lemma policy_for_Some:
  "policy_for s rid ps = Some p \<Longrightarrow> p \<in> set ps \<and> pol_request_id p = rid \<and> pol_status p = s"
  unfolding policy_for_def by (auto simp: find_Some_iff)

lemma count_policies_append:
  "count_policies s rid (xs @ ys) = count_policies s rid xs + count_policies s rid ys"
  by (simp add: count_policies_def)

lemma count_cancel_where_le:
  "s \<noteq> cancelled \<Longrightarrow> count_policies s rid (cancel_where Q ps) \<le> count_policies s rid ps"
  by (induction ps) (auto simp: count_policies_def cancel_where_def)

lemma count_cancel_where_zero:
  "s \<noteq> cancelled \<Longrightarrow> (\<And>p. pol_request_id p = rid \<Longrightarrow> pol_status p = s \<Longrightarrow> Q p)
     \<Longrightarrow> count_policies s rid (cancel_where Q ps) = 0"
  by (induction ps) (auto simp: count_policies_def cancel_where_def filter_map)

lemma filter_cancel_where_empty:
  "s \<noteq> cancelled \<Longrightarrow> (\<And>p. pol_request_id p = rid \<Longrightarrow> pol_status p = s \<Longrightarrow> Q p)
     \<Longrightarrow> filter (\<lambda>p. pol_request_id p = rid \<and> pol_status p = s) (cancel_where Q ps) = []"
  using count_cancel_where_zero [of s rid Q ps] unfolding count_policies_def by simp

lemma led_policies_create_policy:
  "led_policies (snd (create_policy env uid request q status effective superseded replaced led))
   = cancel_where (\<lambda>p. pol_request_id p = req_id request \<and> superseded (pol_status p))
       (led_policies led)
     @ [new_policy env uid request q status effective]"
  by (simp add: create_policy_def Let_def)

lemma count_new_policy:
  "count_policies s rid [new_policy env uid request q status effective]
   = (if req_id request = rid \<and> status = s then 1 else 0)"
  by (simp add: count_policies_def new_policy_def)

lemma create_immediate_inv:
  assumes "at_most_one (led_policies led)"
  shows "at_most_one (led_policies (snd (create_policy env uid request q active effective
            (\<lambda>s. s = active \<or> s = scheduled) replaced led)))"
proof (intro allI conjI)
  fix rid
  let ?Q = "\<lambda>p. pol_request_id p = req_id request \<and> (pol_status p = active \<or> pol_status p = scheduled)"
  have a: "count_policies active rid (cancel_where ?Q (led_policies led)) \<le> 1"
    using count_cancel_where_le [of active rid ?Q "led_policies led"] assms
    by (simp add: le_trans)
  have s: "count_policies scheduled rid (cancel_where ?Q (led_policies led)) \<le> 1"
    using count_cancel_where_le [of scheduled rid ?Q "led_policies led"] assms
    by (simp add: le_trans)
  have z: "req_id request = rid \<Longrightarrow> count_policies active rid (cancel_where ?Q (led_policies led)) = 0"
    by (rule count_cancel_where_zero) auto
  show "count_policies active rid (led_policies (snd (create_policy env uid request q active
           effective (\<lambda>s. s = active \<or> s = scheduled) replaced led))) \<le> 1"
    using a z by (auto simp: led_policies_create_policy count_policies_append count_new_policy)
  show "count_policies scheduled rid (led_policies (snd (create_policy env uid request q active
           effective (\<lambda>s. s = active \<or> s = scheduled) replaced led))) \<le> 1"
    using s by (simp add: led_policies_create_policy count_policies_append count_new_policy)
qed

lemma create_scheduled_inv:
  assumes "at_most_one (led_policies led)"
  shows "at_most_one (led_policies (snd (create_policy env uid request q scheduled effective
            (\<lambda>s. s = scheduled) replaced led)))"
proof (intro allI conjI)
  fix rid
  let ?Q = "\<lambda>p. pol_request_id p = req_id request \<and> pol_status p = scheduled"
  have a: "count_policies active rid (cancel_where ?Q (led_policies led)) \<le> 1"
    using count_cancel_where_le [of active rid ?Q "led_policies led"] assms
    by (simp add: le_trans)
  have s: "count_policies scheduled rid (cancel_where ?Q (led_policies led)) \<le> 1"
    using count_cancel_where_le [of scheduled rid ?Q "led_policies led"] assms
    by (simp add: le_trans)
  have z: "req_id request = rid \<Longrightarrow> count_policies scheduled rid (cancel_where ?Q (led_policies led)) = 0"
    by (rule count_cancel_where_zero) auto
  show "count_policies active rid (led_policies (snd (create_policy env uid request q scheduled
           effective (\<lambda>s. s = scheduled) replaced led))) \<le> 1"
    using a by (simp add: led_policies_create_policy count_policies_append count_new_policy)
  show "count_policies scheduled rid (led_policies (snd (create_policy env uid request q scheduled
           effective (\<lambda>s. s = scheduled) replaced led))) \<le> 1"
    using s z by (auto simp: led_policies_create_policy count_policies_append count_new_policy)
qed

lemma count_map:
  "count_policies s rid (map g ps)
   = length (filter (\<lambda>p. pol_request_id (g p) = rid \<and> pol_status (g p) = s) ps)"
  by (simp add: count_policies_def filter_map comp_def)

lemma promote_row_request [simp]: "pol_request_id (promote_row rid p) = pol_request_id p"
  by (simp add: promote_row_def)

lemma promote_row_active:
  "pol_status (promote_row rid p) = active \<longleftrightarrow>
     (if pol_request_id p = rid then pol_status p = scheduled else pol_status p = active)"
  by (simp add: promote_row_def)

lemma promote_row_scheduled:
  "pol_status (promote_row rid p) = scheduled \<longleftrightarrow>
     pol_request_id p \<noteq> rid \<and> pol_status p = scheduled"
  by (auto simp: promote_row_def)

lemma promote_row_other: "pol_request_id p \<noteq> rid \<Longrightarrow> promote_row rid p = p"
  by (simp add: promote_row_def)

lemma count_active_promote:
  "count_policies active r (map (promote_row rid) ps)
   = (if r = rid then count_policies scheduled rid ps else count_policies active r ps)"
  unfolding count_map count_policies_def
  by (auto intro!: arg_cong [where f = length] filter_cong simp: promote_row_active)

lemma count_scheduled_promote:
  "count_policies scheduled r (map (promote_row rid) ps)
   = (if r = rid then 0 else count_policies scheduled r ps)"
  unfolding count_map count_policies_def
  by (auto intro!: arg_cong [where f = length] filter_cong
      simp: promote_row_scheduled filter_empty_conv)

lemma promote_inv:
  assumes "at_most_one (led_policies led)"
  shows "at_most_one (led_policies (promote_scheduled rid led))"
proof (cases "policy_for scheduled rid (led_policies led)")
  case None
  with assms show ?thesis by (simp add: promote_scheduled_def)
next
  case (Some s)
  then have ps: "led_policies (promote_scheduled rid led)
                 = map (promote_row rid) (led_policies led)"
    by (simp add: promote_scheduled_def)
  show ?thesis unfolding ps
    using assms by (simp add: count_active_promote count_scheduled_promote)
qed

lemma filter_at_most_one:
  assumes "length (filter P ps) \<le> 1" "x \<in> set ps" "P x"
  shows "filter P ps = [x]"
proof -
  from assms(2,3) have mem: "x \<in> set (filter P ps)" by simp
  then obtain y ys where eq: "filter P ps = y # ys" by (cases "filter P ps") auto
  with assms(1) have "ys = []" by simp
  with eq mem show ?thesis by simp
qed

lemma count_unique:
  assumes "count_policies s rid ps \<le> 1"
    and "x \<in> set ps" "pol_request_id x = rid" "pol_status x = s"
    and "y \<in> set ps" "pol_request_id y = rid" "pol_status y = s"
  shows "x = y"
proof -
  let ?P = "\<lambda>p. pol_request_id p = rid \<and> pol_status p = s"
  from assms(1) have le: "length (filter ?P ps) \<le> 1" by (simp add: count_policies_def)
  have "filter ?P ps = [x]" using le assms(2-4) by (intro filter_at_most_one) simp_all
  moreover have "filter ?P ps = [y]" using le assms(5-7) by (intro filter_at_most_one) simp_all
  ultimately show ?thesis by simp
qed

lemma policy_for_filter:
  assumes "count_policies s rid ps \<le> 1" "policy_for s rid ps = Some p"
  shows "filter (\<lambda>q. pol_request_id q = rid \<and> pol_status q = s) ps = [p]"
  using assms policy_for_Some [OF assms(2)] filter_at_most_one [of _ ps p]
  by (simp add: count_policies_def)

lemma mem_cancel_where:
  "x \<in> set (cancel_where Q ps) \<Longrightarrow> pol_status x \<noteq> cancelled \<Longrightarrow> x \<in> set ps \<and> \<not> Q x"
  by (auto simp: cancel_where_def split: if_splits)

lemma policy_for_cancel_where:
  assumes "\<And>p. Q p \<Longrightarrow> pol_status p \<noteq> s" "s \<noteq> cancelled"
  shows "policy_for s rid (cancel_where Q ps) = policy_for s rid ps"
  using assms by (induction ps) (auto simp: policy_for_def cancel_where_def)

lemma policy_for_append_Some:
  "policy_for s rid xs = Some a \<Longrightarrow> policy_for s rid (xs @ ys) = Some a"
  by (induction xs) (auto simp: policy_for_def)

lemma activate_cases_full:
  assumes "activate env settings uid request tier led = Inr (response, led')"
  obtains
    (noop_active) q a where
      "quote_engine request tier settings (env_health_bucket env) (led_available_points led)
         = Inr q"
      "policy_for active (req_id request) (led_policies led) = Some a" "pol_tier a = tier"
      "response = unchanged_response a q immediate" "led' = led"
  | (noop_scheduled) q a s where
      "quote_engine request tier settings (env_health_bucket env) (led_available_points led)
         = Inr q"
      "policy_for active (req_id request) (led_policies led) = Some a"
      "policy_for scheduled (req_id request) (led_policies led) = Some s" "pol_tier s = tier"
      "response = unchanged_response s q scheduled_mode" "led' = led"
  | (immediately) q replaced where
      "quote_engine request tier settings (env_health_bucket env) (led_available_points led)
         = Inr q"
      "policy_for active (req_id request) (led_policies led) = None \<or> env_force_immediate env"
      "(response, led') = create_policy env uid request q active (env_now env)
                            (\<lambda>s. s = active \<or> s = scheduled) replaced led"
  | (schedule) q a replaced where
      "quote_engine request tier settings (env_health_bucket env) (led_available_points led)
         = Inr q"
      "policy_for active (req_id request) (led_policies led) = Some a"
      "(response, led') = create_policy env uid request q scheduled (pol_next_billing_at a)
                            (\<lambda>s. s = scheduled) replaced led"
proof -
  let ?ps = "led_policies led"
  let ?rid = "req_id request"
  from assms have elig: "\<not> (req_status request \<noteq> approved \<and> req_status request \<noteq> completed)"
    by (auto simp: activate_def split: if_splits)
  with assms obtain q where
    q: "quote_engine request tier settings (env_health_bucket env) (led_available_points led)
          = Inr q"
    by (cases "quote_engine request tier settings (env_health_bucket env)
                 (led_available_points led)") (auto simp: activate_def)
  show thesis
  proof (cases "policy_for active ?rid ?ps")
    case None
    with assms elig q
    have "(response, led') = create_policy env uid request q active (env_now env)
                               (\<lambda>s. s = active \<or> s = scheduled) None led"
      by (simp add: activate_def Let_def)
    with q None show thesis using immediately by blast
  next
    case (Some a)
    show thesis
    proof (cases "env_force_immediate env")
      case True
      with assms elig q Some
      have "(response, led') = create_policy env uid request q active (env_now env)
                                 (\<lambda>s. s = active \<or> s = scheduled) (Some (pol_id a)) led"
        by (simp add: activate_def Let_def)
      with q True show thesis using immediately by blast
    next
      case False
      show thesis
      proof (cases "pol_tier a = tier")
        case True
        with assms elig q Some False
        have "response = unchanged_response a q immediate" "led' = led"
          by (simp_all add: activate_def Let_def)
        with q Some True show thesis using noop_active by blast
      next
        case tier: False
        show thesis
        proof (cases "policy_for scheduled ?rid ?ps")
          case None
          with assms elig q Some False tier
          have "(response, led') = create_policy env uid request q scheduled
                  (pol_next_billing_at a) (\<lambda>s. s = scheduled) None led"
            by (simp add: activate_def Let_def)
          with q Some show thesis using schedule by blast
        next
          case pending: (Some s)
          show thesis
          proof (cases "pol_tier s = tier")
            case True
            with assms elig q Some False tier pending
            have "response = unchanged_response s q scheduled_mode" "led' = led"
              by (simp_all add: activate_def Let_def)
            with q Some pending True show thesis using noop_scheduled by blast
          next
            case False2: False
            with assms elig q Some False tier pending
            have "(response, led') = create_policy env uid request q scheduled
                    (pol_next_billing_at a) (\<lambda>s. s = scheduled) (Some (pol_id s)) led"
              by (simp add: activate_def Let_def)
            with q Some show thesis using schedule by blast
          qed
        qed
      qed
    qed
  qed
qed

lemma activate_inv:
  assumes "activate env settings uid request tier led = Inr (response, led')"
    and "at_most_one (led_policies led)"
  shows "at_most_one (led_policies led')"
  using assms(1)
proof (cases rule: activate_cases_full)
  case (noop_active q a)
  with assms(2) show ?thesis by simp
next
  case (noop_scheduled q a s)
  with assms(2) show ?thesis by simp
next
  case (immediately q replaced)
  from create_immediate_inv [OF assms(2), of env uid request q "env_now env" replaced]
  show ?thesis unfolding immediately(3) [symmetric] by simp
next
  case (schedule q a replaced)
  from create_scheduled_inv [OF assms(2), of env uid request q "pol_next_billing_at a" replaced]
  show ?thesis unfolding schedule(3) [symmetric] by simp
qed

lemma create_immediate_consistent:
  assumes "schedule_consistent (led_policies led)"
  shows "schedule_consistent (led_policies (snd (create_policy env uid request q active effective
            (\<lambda>s. s = active \<or> s = scheduled) replaced led)))"
proof (intro allI impI)
  fix a s
  let ?Q = "\<lambda>p. pol_request_id p = req_id request \<and> (pol_status p = active \<or> pol_status p = scheduled)"
  let ?row = "new_policy env uid request q active effective"
  assume h: "a \<in> set (led_policies (snd (create_policy env uid request q active effective
                 (\<lambda>s. s = active \<or> s = scheduled) replaced led)))
           \<and> s \<in> set (led_policies (snd (create_policy env uid request q active effective
                 (\<lambda>s. s = active \<or> s = scheduled) replaced led)))
           \<and> pol_status a = active \<and> pol_status s = scheduled
           \<and> pol_request_id a = pol_request_id s"
  then have s_old: "s \<in> set (cancel_where ?Q (led_policies led))"
    by (auto simp: led_policies_create_policy new_policy_def)
  with h have s': "s \<in> set (led_policies led)" "\<not> ?Q s"
    using mem_cancel_where [of s ?Q "led_policies led"] by auto
  from h have "a = ?row \<or> a \<in> set (cancel_where ?Q (led_policies led))"
    by (auto simp: led_policies_create_policy)
  then show "pol_effective_at s = pol_next_billing_at a"
  proof
    assume "a = ?row"
    then have "pol_request_id a = req_id request" by (simp add: new_policy_def)
    with h s' show ?thesis by simp
  next
    assume "a \<in> set (cancel_where ?Q (led_policies led))"
    with h have "a \<in> set (led_policies led)"
      using mem_cancel_where [of a ?Q "led_policies led"] by auto
    with h s' show ?thesis using assms [rule_format, of a s] by simp
  qed
qed

lemma create_scheduled_consistent:
  assumes "schedule_consistent (led_policies led)"
    and "count_policies active (req_id request) (led_policies led) \<le> 1"
    and "policy_for active (req_id request) (led_policies led) = Some a0"
  shows "schedule_consistent (led_policies (snd (create_policy env uid request q scheduled
            (pol_next_billing_at a0) (\<lambda>s. s = scheduled) replaced led)))"
proof (intro allI impI)
  fix a s
  let ?Q = "\<lambda>p. pol_request_id p = req_id request \<and> pol_status p = scheduled"
  let ?row = "new_policy env uid request q scheduled (pol_next_billing_at a0)"
  assume h: "a \<in> set (led_policies (snd (create_policy env uid request q scheduled
                 (pol_next_billing_at a0) (\<lambda>s. s = scheduled) replaced led)))
           \<and> s \<in> set (led_policies (snd (create_policy env uid request q scheduled
                 (pol_next_billing_at a0) (\<lambda>s. s = scheduled) replaced led)))
           \<and> pol_status a = active \<and> pol_status s = scheduled
           \<and> pol_request_id a = pol_request_id s"
  then have "a \<in> set (cancel_where ?Q (led_policies led))"
    by (auto simp: led_policies_create_policy new_policy_def)
  with h have a': "a \<in> set (led_policies led)"
    using mem_cancel_where [of a ?Q "led_policies led"] by auto
  from h have "s = ?row \<or> s \<in> set (cancel_where ?Q (led_policies led))"
    by (auto simp: led_policies_create_policy)
  then show "pol_effective_at s = pol_next_billing_at a"
  proof
    assume row: "s = ?row"
    then have "pol_request_id s = req_id request" by (simp add: new_policy_def)
    with h a' have "a = a0"
      using count_unique [OF assms(2), of a a0] policy_for_Some [OF assms(3)] by simp
    with row show ?thesis by (simp add: new_policy_def)
  next
    assume "s \<in> set (cancel_where ?Q (led_policies led))"
    with h have "s \<in> set (led_policies led)"
      using mem_cancel_where [of s ?Q "led_policies led"] by auto
    with h a' show ?thesis using assms(1) [rule_format, of a s] by simp
  qed
qed

lemma activate_consistent:
  assumes "activate env settings uid request tier led = Inr (response, led')"
    and "at_most_one (led_policies led)" "schedule_consistent (led_policies led)"
  shows "schedule_consistent (led_policies led')"
  using assms(1)
proof (cases rule: activate_cases_full)
  case (noop_active q a)
  with assms(3) show ?thesis by simp
next
  case (noop_scheduled q a s)
  with assms(3) show ?thesis by simp
next
  case (immediately q replaced)
  from create_immediate_consistent [OF assms(3), of env uid request q "env_now env" replaced]
  show ?thesis unfolding immediately(3) [symmetric] by simp
next
  case (schedule q a replaced)
  from assms(2) have "count_policies active (req_id request) (led_policies led) \<le> 1" by simp
  from create_scheduled_consistent [OF assms(3) this schedule(2), of env uid q replaced]
  show ?thesis unfolding schedule(3) [symmetric] by simp
qed

lemma promote_consistent:
  assumes "schedule_consistent (led_policies led)"
  shows "schedule_consistent (led_policies (promote_scheduled rid led))"
proof (cases "policy_for scheduled rid (led_policies led)")
  case None
  with assms show ?thesis by (simp add: promote_scheduled_def)
next
  case (Some s0)
  then have ps: "led_policies (promote_scheduled rid led)
                 = map (promote_row rid) (led_policies led)"
    by (simp add: promote_scheduled_def)
  show ?thesis unfolding ps
  proof (intro allI impI)
    fix a s
    assume h: "a \<in> set (map (promote_row rid) (led_policies led))
               \<and> s \<in> set (map (promote_row rid) (led_policies led))
               \<and> pol_status a = active \<and> pol_status s = scheduled
               \<and> pol_request_id a = pol_request_id s"
    then obtain a1 s1 where a1: "a1 \<in> set (led_policies led)" "a = promote_row rid a1"
      and s1: "s1 \<in> set (led_policies led)" "s = promote_row rid s1" by auto
    from h s1(2) have s1': "pol_request_id s1 \<noteq> rid" "pol_status s1 = scheduled"
      by (simp_all add: promote_row_scheduled)
    then have s_eq: "s = s1" using s1(2) by (simp add: promote_row_other)
    from h a1(2) s1(2) s1'(1) have "pol_request_id a1 \<noteq> rid" by simp
    then have a_eq: "a = a1" using a1(2) by (simp add: promote_row_other)
    from a_eq a1(1) have "a \<in> set (led_policies led)" by simp
    moreover from s_eq s1(1) have "s \<in> set (led_policies led)" by simp
    ultimately show "pol_effective_at s = pol_next_billing_at a"
      using h assms [rule_format, of a s] by simp
  qed
qed

lemma reachable_invariants:
  "reachable led \<Longrightarrow> at_most_one (led_policies led) \<and> schedule_consistent (led_policies led)"
proof (induction rule: reachable.induct)
  case (reachable_empty pts)
  show ?case by (simp add: count_policies_def)
next
  case (reachable_activate led env settings uid request tier response led')
  from reachable_activate.IH have one: "at_most_one (led_policies led)"
    and cons: "schedule_consistent (led_policies led)" by (rule conjunct1, rule conjunct2)
  from activate_inv [OF reachable_activate.hyps(2) one]
    activate_consistent [OF reachable_activate.hyps(2) one cons]
  show ?case by (rule conjI)
next
  case (reachable_promote led rid)
  from reachable_promote.IH have one: "at_most_one (led_policies led)"
    and cons: "schedule_consistent (led_policies led)" by (rule conjunct1, rule conjunct2)
  from promote_inv [OF one] promote_consistent [OF cons]
  show ?case by (rule conjI)
qed


lemma quote_engine_tier:
  "quote_engine request tier settings bucket pts = Inr q \<Longrightarrow> q_tier q = tier"
  by (auto simp: quote_engine_def Let_def split: if_splits)

lemma activate_schedules:
  assumes elig: "req_status request = approved \<or> req_status request = completed"
    and q: "quote_engine request tier settings (env_health_bucket env) (led_available_points led)
              = Inr q"
    and a: "policy_for active (req_id request) (led_policies led) = Some a"
    and tier: "pol_tier a \<noteq> tier"
    and force: "\<not> env_force_immediate env"
    and pend: "\<And>s. policy_for scheduled (req_id request) (led_policies led) = Some s
                 \<Longrightarrow> pol_tier s \<noteq> tier"
  shows "activate env settings uid request tier led
         = Inr (create_policy env uid request q scheduled (pol_next_billing_at a)
                  (\<lambda>s. s = scheduled)
                  (map_option pol_id (policy_for scheduled (req_id request) (led_policies led)))
                  led)"
proof (cases "policy_for scheduled (req_id request) (led_policies led)")
  case None
  with elig q a tier force show ?thesis by (auto simp: activate_def Let_def)
next
  case (Some s)
  with pend have "pol_tier s \<noteq> tier" by simp
  with Some elig q a tier force show ?thesis by (auto simp: activate_def Let_def)
qed


lemma activate_noop_scheduled:
  assumes "req_status request = approved \<or> req_status request = completed"
    and "quote_engine request tier settings (env_health_bucket env) (led_available_points led)
           = Inr q"
    and "policy_for active (req_id request) (led_policies led) = Some a"
    and "pol_tier a \<noteq> tier"
    and "\<not> env_force_immediate env"
    and "policy_for scheduled (req_id request) (led_policies led) = Some s"
    and "pol_tier s = tier"
  shows "activate env settings uid request tier led
         = Inr (unchanged_response s q scheduled_mode, led)"
  using assms by (auto simp: activate_def Let_def)

lemma create_scheduled_facts:
  assumes "(response, led') = create_policy env uid request q scheduled effective
                                (\<lambda>s. s = scheduled) replaced led"
  shows "ar_activation_mode response = Some scheduled_mode"
    and "ar_effective_at response = Some effective"
    and "ar_policy response = new_policy env uid request q scheduled effective"
    and "ar_pricing response = q"
    and "led_policies led'
         = cancel_where (\<lambda>p. pol_request_id p = req_id request \<and> pol_status p = scheduled)
             (led_policies led)
           @ [new_policy env uid request q scheduled effective]"
    and "led_available_points led' = led_available_points led - q_points_redeemed q"
  using assms by (simp_all add: create_policy_def Let_def)

lemma create_scheduled_keeps_active:
  assumes "(response, led') = create_policy env uid request q scheduled effective
                                (\<lambda>s. s = scheduled) replaced led"
    and "policy_for active rid (led_policies led) = Some a"
  shows "policy_for active rid (led_policies led') = Some a"
proof -
  let ?Q = "\<lambda>p. pol_request_id p = req_id request \<and> pol_status p = scheduled"
  have "policy_for active rid (cancel_where ?Q (led_policies led)) = Some a"
    using assms(2) policy_for_cancel_where [of ?Q active rid "led_policies led"] by simp
  then show ?thesis
    unfolding create_scheduled_facts(5) [OF assms(1)] by (rule policy_for_append_Some)
qed

lemma create_scheduled_replaces:
  assumes "(response, led') = create_policy env uid request q scheduled effective
                                (\<lambda>s. s = scheduled) replaced led"
  shows "filter (\<lambda>p. pol_request_id p = req_id request \<and> pol_status p = scheduled)
           (led_policies led') = [ar_policy response]"
proof -
  let ?Q = "\<lambda>p. pol_request_id p = req_id request \<and> pol_status p = scheduled"
  have "filter ?Q (cancel_where ?Q (led_policies led)) = []"
    by (rule filter_cancel_where_empty) simp_all
  then show ?thesis
    unfolding create_scheduled_facts(5) [OF assms] create_scheduled_facts(3) [OF assms]
    by (simp add: new_policy_def)
qed


section \<open>The scenarios, evaluated\<close>

lemma quote_A_eval:
  "quote_engine request_R basic scenario_settings good 500 = Inr (quote_A basic)"
  by (simp add: quote_engine_def request_R_def scenario_settings_def quote_A_def Let_def
      units_redeemable_def round_cents_def)

lemma request_R_simps: "req_status request_R = approved" "req_id request_R = ''R''"
  by (simp_all add: request_R_def)

lemma quote_C_eval:
  "quote_engine request_R plus_tier scenario_settings good 0
   = Inr \<lparr>q_tier = plus_tier, q_steps = 10, q_base_rate_per_step = 35,
            q_bucket_multiplier = 1, q_monthly_premium = 350,
            q_final_premium = 350, q_points_redeemed = 0,
            q_discount_value_usd = 0, q_points_available = 0\<rparr>"
  by (simp add: quote_engine_def request_R_def scenario_settings_def Let_def
      units_redeemable_def round_cents_def)

lemma activate_A:
  "activate env_january scenario_settings ''u1'' request_R basic ledger_A
   = Inr (\<lparr>ar_policy = basic_policy_R, ar_payment = None,
            ar_discount = \<lparr>points_spent = 500, value_usd = 25\<rparr>,
            ar_pricing = quote_A basic, ar_replaced_policy_id = None,
            ar_activation_mode = Some immediate,
            ar_effective_at = Some ''2026-01-15T00:00:00Z''\<rparr>, ledger_C)"
  by (simp add: activate_def env_january_def ledger_A_def quote_A_eval policy_for_def
      create_policy_def new_policy_def cancel_where_def basic_policy_R_def ledger_C_def
      quote_A_def request_R_simps Let_def)

lemma activate_C:
  "activate env_late_january scenario_settings ''u1'' request_R plus_tier ledger_C
   = Inr (\<lparr>ar_policy = plus_policy_R, ar_payment = None,
            ar_discount = \<lparr>points_spent = 0, value_usd = 0\<rparr>,
            ar_pricing = \<lparr>q_tier = plus_tier, q_steps = 10, q_base_rate_per_step = 35,
                           q_bucket_multiplier = 1, q_monthly_premium = 350,
                           q_final_premium = 350, q_points_redeemed = 0,
                           q_discount_value_usd = 0, q_points_available = 0\<rparr>,
            ar_replaced_policy_id = None,
            ar_activation_mode = Some scheduled_mode,
            ar_effective_at = Some ''2026-02-15T00:00:00Z''\<rparr>, ledger_C_scheduled)"
  by (simp add: activate_def env_late_january_def ledger_C_def policy_for_def
      create_policy_def new_policy_def cancel_where_def basic_policy_R_def ledger_C_scheduled_def
      plus_policy_R_def request_R_simps quote_C_eval Let_def)

lemma reachable_ledger_C: "reachable ledger_C"
proof -
  have "reachable ledger_A" unfolding ledger_A_def by (rule reachable_empty)
  then show ?thesis using activate_A by (rule reachable_activate)
qed

lemma reachable_ledger_C_scheduled: "reachable ledger_C_scheduled"
  using reachable_ledger_C activate_C by (rule reachable_activate)

lemma quote_premium_eval:
  "quote_engine request_R premium scenario_settings good 0 = Inr quote_premium"
  by (simp add: quote_engine_def request_R_def scenario_settings_def Let_def
      units_redeemable_def round_cents_def quote_premium_def)

lemma activate_reschedule:
  "activate env_february scenario_settings ''u1'' request_R premium ledger_C_scheduled
   = Inr (reschedule_response, ledger_C_rescheduled)"
  by (simp add: activate_def env_february_def ledger_C_scheduled_def policy_for_def
      create_policy_def new_policy_def cancel_where_def basic_policy_R_def
      plus_policy_R_def premium_policy_R_def request_R_simps quote_premium_eval Let_def
      reschedule_response_def ledger_C_rescheduled_def quote_premium_def)



section \<open>Properties of the activation state machine\<close>

text \<open>
  Claim C2.  In every ledger that activations and billing cycles can produce from
  the empty one, a request has at most one \<open>active\<close> and at most one \<open>scheduled\<close>
  policy; after an activation that answers \<open>scheduled\<close>, the policy of the answer is
  the only scheduled policy of the request, an earlier schedule being replaced;
  and the two maps of the enrollment page bind a request to one policy of that
  request and status, which for an overview that lists such a ledger is the
  request's only active, respectively scheduled, policy.
\<close>

theorem one_policy_per_request:
  assumes "reachable led"
  shows "count_policies active rid (led_policies led) \<le> 1
       \<and> count_policies scheduled rid (led_policies led) \<le> 1
       \<and> (activate env settings uid request tier led = Inr (response, led')
              \<and> ar_activation_mode response = Some scheduled_mode
            \<longrightarrow> filter (\<lambda>p. pol_request_id p = req_id request \<and> pol_status p = scheduled)
                  (led_policies led') = [ar_policy response])
       \<and> (insurance_policies data = led_policies led
            \<longrightarrow> policiesByRequest (Some data) rid = policy_for active rid (led_policies led)
                \<and> scheduledPoliciesByRequest (Some data) rid
                    = policy_for scheduled rid (led_policies led))
       \<and> (policiesByRequest ov rid = Some p
            \<longrightarrow> p \<in> set (policies_of ov) \<and> pol_request_id p = rid \<and> pol_status p = active)
       \<and> (scheduledPoliciesByRequest ov rid = Some p
            \<longrightarrow> p \<in> set (policies_of ov) \<and> pol_request_id p = rid \<and> pol_status p = scheduled)"
proof -
  from assms have one: "at_most_one (led_policies led)"
    using reachable_invariants by blast
  have replace: "filter (\<lambda>p. pol_request_id p = req_id request \<and> pol_status p = scheduled)
                   (led_policies led') = [ar_policy response]"
    if act: "activate env settings uid request tier led = Inr (response, led')"
      and mode: "ar_activation_mode response = Some scheduled_mode"
    using act
  proof (cases rule: activate_cases_full)
    case (noop_active q a)
    with mode show ?thesis by (simp add: unchanged_response_def)
  next
    case (noop_scheduled q a s)
    from one have "count_policies scheduled (req_id request) (led_policies led) \<le> 1" by simp
    from policy_for_filter [OF this noop_scheduled(3)] noop_scheduled(5,6)
    show ?thesis by (simp add: unchanged_response_def)
  next
    case (immediately q replaced)
    with mode show ?thesis by (simp add: create_policy_def Let_def)
  next
    case (schedule q a replaced)
    from create_scheduled_replaces [OF schedule(3)] show ?thesis .
  qed
  have maps: "policiesByRequest (Some data) rid = policy_for active rid (led_policies led)
              \<and> scheduledPoliciesByRequest (Some data) rid
                  = policy_for scheduled rid (led_policies led)"
    if "insurance_policies data = led_policies led"
    using that one
    by (simp add: policiesByRequest_find scheduledPoliciesByRequest_find policies_of_def
        policy_for_rev)
  have bound: "p \<in> set (policies_of ov) \<and> pol_request_id p = rid \<and> pol_status p = active"
    if "policiesByRequest ov rid = Some p"
    using that policy_for_Some [of active rid "rev (policies_of ov)" p]
    by (simp add: policiesByRequest_find)
  have bound': "p \<in> set (policies_of ov) \<and> pol_request_id p = rid \<and> pol_status p = scheduled"
    if "scheduledPoliciesByRequest ov rid = Some p"
    using that policy_for_Some [of scheduled rid "rev (policies_of ov)" p]
    by (simp add: scheduledPoliciesByRequest_find)
  from one replace maps bound bound' show ?thesis by blast
qed

theorem one_policy_per_request_witness:
  "reachable ledger_C_scheduled
   \<and> count_policies active ''R'' (led_policies ledger_C_scheduled) = 1
   \<and> count_policies scheduled ''R'' (led_policies ledger_C_scheduled) = 1
   \<and> activate env_february scenario_settings ''u1'' request_R premium ledger_C_scheduled
       = Inr (reschedule_response, ledger_C_rescheduled)
   \<and> filter (\<lambda>p. pol_request_id p = ''R'' \<and> pol_status p = scheduled)
        (led_policies ledger_C_rescheduled) = [premium_policy_R]
   \<and> policiesByRequest (Some overview_C_scheduled) ''R'' = Some basic_policy_R
   \<and> scheduledPoliciesByRequest (Some overview_C_scheduled) ''R'' = Some plus_policy_R"
  using one_policy_per_request [OF reachable_ledger_C_scheduled, of "''R''" env_february
          scenario_settings "''u1''" request_R premium reschedule_response ledger_C_rescheduled
          overview_C_scheduled "Some overview_C_scheduled" basic_policy_R]
    reachable_ledger_C_scheduled activate_reschedule
  by (simp add: reschedule_response_def request_R_simps overview_C_scheduled_def
      ledger_C_scheduled_def count_policies_def basic_policy_R_def plus_policy_R_def
      policy_for_def)

lemma handleActivateUntilReload_ok:
  assumes "selectedRequestId st \<noteq> []"
  shows "activationFeedback (handleActivateUntilReload fd fc (Ok r) st)
           = Some (activationFeedbackText fd fc (activePolicyTier st) r)"
    and "activationMode (handleActivateUntilReload fd fc (Ok r) st)
           = Some (case ar_activation_mode r of None \<Rightarrow> immediate | Some m \<Rightarrow> m)"
    and "activationError (handleActivateUntilReload fd fc (Ok r) st) = None"
    and "activationSaving (handleActivateUntilReload fd fc (Ok r) st)"
    and "loading (handleActivateUntilReload fd fc (Ok r) st)"
    and "selectedRequestId (handleActivateUntilReload fd fc (Ok r) st) = selectedRequestId st"
    and "selectedTier (handleActivateUntilReload fd fc (Ok r) st) = selectedTier st"
    and "overview (handleActivateUntilReload fd fc (Ok r) st) = overview st"
  using assms
  by (simp_all add: handleActivateUntilReload_def loadOverviewStarted_def Let_def)

text \<open>A reload that fails leaves the feedback on the page.\<close>

lemma handleActivate_reload_failed:
  assumes "selectedRequestId st \<noteq> []"
  shows "activationFeedback (handleActivate fd fc (Ok r) (Failed msg) preview st)
           = Some (activationFeedbackText fd fc (activePolicyTier st) r)"
    and "load_error (handleActivate fd fc (Ok r) (Failed msg) preview st) = Some msg"
  using assms
  by (simp_all add: handleActivate_def handleActivateUntilReload_def loadOverviewStarted_def
      loadOverviewSettled_def Let_def)

lemma previewEffect_keeps:
  "selectedRequestId (previewEffect preview st) = selectedRequestId st"
  "selectedTier (previewEffect preview st) = selectedTier st"
  "activationFeedback (previewEffect preview st) = activationFeedback st"
  "activationError (previewEffect preview st) = activationError st"
  by (simp_all add: previewEffect_def clearPreview_def Let_def split: ApiResult.splits)

lemma previewEffect_Ok:
  assumes "selectedRequestId st \<noteq> []"
  shows "quote (previewEffect (Ok r) st) = Some (qr_quote r)"
    and "quoteEligible (previewEffect (Ok r) st) = qr_eligible r"
    and "activePolicyTier (previewEffect (Ok r) st) = qr_active_policy_tier r"
    and "scheduledPolicyTier (previewEffect (Ok r) st) = qr_scheduled_policy_tier r"
    and "activationMode (previewEffect (Ok r) st) = qr_activation_mode r"
  using assms by (simp_all add: previewEffect_def Let_def)

text \<open>
  A reload that succeeds runs the effects.  When the selected request is still
  eligible and has an active policy of another tier than the selected one, as
  after every scheduled change, they put the tier selection back to the active
  tier, clear the feedback and ask for the preview of the active tier.
\<close>

lemma handleActivate_reload_run:
  assumes sel: "selectedRequestId st \<noteq> []"
    and elig: "list_ex (\<lambda>request. req_id request = selectedRequestId st)
                 (eligibleRequests (Some data))"
    and act: "policiesByRequest (Some data) (selectedRequestId st) = Some activePolicy"
    and tier: "pol_tier activePolicy \<noteq> selectedTier st"
  shows "handleActivate fd fc (Ok r) (Ok data) preview st
           = previewEffect preview
               ((handleActivateUntilReload fd fc (Ok r) st)
                  \<lparr>overview := Some data, loading := False, activationSaving := False,
                   selectedTier := pol_tier activePolicy,
                   activePolicyTier := Some (pol_tier activePolicy),
                   activationFeedback := None, activationError := None\<rparr>)"
proof -
  define st2 where
    "st2 = (handleActivateUntilReload fd fc (Ok r) st)
             \<lparr>overview := Some data, loading := False, activationSaving := False\<rparr>"
  have st2: "overview st2 = Some data" "selectedRequestId st2 = selectedRequestId st"
    "selectedTier st2 = selectedTier st"
    using sel
    by (simp_all add: st2_def handleActivateUntilReload_def loadOverviewStarted_def Let_def)
  from elig obtain first rest where er: "eligibleRequests (Some data) = first # rest"
    by (cases "eligibleRequests (Some data)") simp_all
  have req: "syncSelectedRequest st2 = st2"
    using sel elig by (simp add: syncSelectedRequest_def st2 er Let_def)
  have synced: "syncSelectedTier (syncSelectedRequest st2)
                  = st2\<lparr>selectedTier := pol_tier activePolicy,
                        activePolicyTier := Some (pol_tier activePolicy)\<rparr>"
    using sel act by (simp add: req syncSelectedTier_def st2)
  have "handleActivate fd fc (Ok r) (Ok data) preview st = overviewEffects preview st2"
    using sel by (simp add: handleActivate_def Let_def st2_def loadOverviewSettled_def)
  also have "\<dots> = previewEffect preview
                   (st2\<lparr>selectedTier := pol_tier activePolicy,
                        activePolicyTier := Some (pol_tier activePolicy),
                        activationFeedback := None, activationError := None\<rparr>)"
    unfolding overviewEffects_def Let_def synced using tier by (simp add: st2)
  finally show ?thesis unfolding st2_def by simp
qed

lemma handleActivate_reload_resets:
  assumes sel: "selectedRequestId st \<noteq> []"
    and elig: "list_ex (\<lambda>request. req_id request = selectedRequestId st)
                 (eligibleRequests (Some data))"
    and act: "policiesByRequest (Some data) (selectedRequestId st) = Some activePolicy"
    and tier: "pol_tier activePolicy \<noteq> selectedTier st"
  shows "selectedRequestId (handleActivate fd fc (Ok r) (Ok data) preview st)
           = selectedRequestId st"
    and "selectedTier (handleActivate fd fc (Ok r) (Ok data) preview st) = pol_tier activePolicy"
    and "activationFeedback (handleActivate fd fc (Ok r) (Ok data) preview st) = None"
    and "activationError (handleActivate fd fc (Ok r) (Ok data) preview st) = None"
  unfolding handleActivate_reload_run [OF assms]
  using sel by (simp_all add: previewEffect_keeps handleActivateUntilReload_ok)

lemma activationFeedbackText_scheduled:
  assumes "ar_activation_mode r = Some scheduled_mode"
  shows "activationFeedbackText fd fc prev r
         = insuranceTierLabels (q_tier (ar_pricing r)) @ '' coverage scheduled at ''
           @ fc (q_final_premium (ar_pricing r)) @ '' per month. It will begin on ''
           @ scheduleLabel fd (ar_effective_at r) @ ''. ''
           @ (case prev of
                Some t \<Rightarrow> insuranceTierLabels t @ '' coverage stays active until then.''
              | None \<Rightarrow> ''Current coverage stays active until then.'')"
  using assms by (simp add: activationFeedbackText_def Let_def split: option.splits)

lemma infoMessage_scheduled:
  assumes "quote st = Some qq" "quoteEligible st" "\<not> sameTierActive st"
    "\<not> sameTierScheduled st" "activationMode st = Some scheduled_mode"
  shows "\<exists>note. infoMessage fd st
           = Some (''This change takes effect on your next billing date (''
                   @ scheduleLabel fd (effectiveAt st) @ ''). ''
                   @ (case activePolicyTier st of
                        Some t \<Rightarrow> insuranceTierLabels t @ '' coverage''
                      | None \<Rightarrow> ''Current coverage'')
                   @ '' stays active until then.'' @ note)"
  using assms by (simp add: infoMessage_def Let_def)

text \<open>
  Claim C3.  In a ledger that can arise, when the request is eligible and quoted,
  an active policy exists for it, the requested tier differs from the active one
  and no immediate start is forced, the activation succeeds and is scheduled: the
  answer has mode \<open>scheduled\<close> and \<open>effective_at\<close> equal to the active policy's
  \<open>next_billing_at\<close>, its policy is a \<open>scheduled\<close> row of the requested tier, and the
  active policy is still the request's active policy, unchanged.  The page
  reports it twice.  Before the activation, a preview in mode \<open>scheduled\<close> shows
  the notice ``stays active until then''.  When the answer has arrived, the page
  holds the feedback that ends in ``coverage stays active until then''; it holds
  it while the reload of the overview is pending, and keeps it if the reload
  fails (\<open>handleActivate_reload_failed\<close>), whereas the effects of a reload that
  succeeds put the tier selection back to the active tier and thereby clear it
  (\<open>handleActivate_reload_resets\<close>).
\<close>

theorem tier_change_is_scheduled:
  assumes reach: "reachable led"
    and elig: "req_status request = approved \<or> req_status request = completed"
    and q: "quote_engine request tier settings (env_health_bucket env) (led_available_points led)
              = Inr q"
    and a: "policy_for active (req_id request) (led_policies led) = Some a"
    and tier: "pol_tier a \<noteq> tier"
    and force: "\<not> env_force_immediate env"
  shows "(\<exists>response led'.
            activate env settings uid request tier led = Inr (response, led')
          \<and> ar_activation_mode response = Some scheduled_mode
          \<and> ar_effective_at response = Some (pol_next_billing_at a)
          \<and> pol_status (ar_policy response) = scheduled
          \<and> pol_tier (ar_policy response) = tier
          \<and> pol_effective_at (ar_policy response) = pol_next_billing_at a
          \<and> policy_for active (req_id request) (led_policies led') = Some a
          \<and> pol_status a = active
          \<and> (selectedRequestId st \<noteq> [] \<longrightarrow>
                activationFeedback (handleActivateUntilReload formatDate formatCurrency (Ok response) st)
                  = Some (insuranceTierLabels tier @ '' coverage scheduled at ''
                          @ formatCurrency (q_final_premium q)
                          @ '' per month. It will begin on ''
                          @ scheduleLabel formatDate (Some (pol_next_billing_at a)) @ ''. ''
                          @ (case activePolicyTier st of
                               Some t \<Rightarrow> insuranceTierLabels t
                                         @ '' coverage stays active until then.''
                             | None \<Rightarrow> ''Current coverage stays active until then.''))
              \<and> activationMode (handleActivateUntilReload formatDate formatCurrency (Ok response) st)
                  = Some scheduled_mode
              \<and> activationError (handleActivateUntilReload formatDate formatCurrency (Ok response) st)
                  = None))
       \<and> (quote st = Some qq \<and> quoteEligible st \<and> \<not> sameTierActive st
            \<and> \<not> sameTierScheduled st \<and> activationMode st = Some scheduled_mode
          \<longrightarrow> (\<exists>note. infoMessage formatDate st
                 = Some (''This change takes effect on your next billing date (''
                         @ scheduleLabel formatDate (effectiveAt st) @ ''). ''
                         @ (case activePolicyTier st of
                              Some t \<Rightarrow> insuranceTierLabels t @ '' coverage''
                            | None \<Rightarrow> ''Current coverage'')
                         @ '' stays active until then.'' @ note)))"
proof (rule conjI)
  let ?ps = "led_policies led"
  let ?rid = "req_id request"
  from reach have one: "at_most_one ?ps" and cons: "schedule_consistent ?ps"
    using reachable_invariants by blast+
  from policy_for_Some [OF a] have a_mem: "a \<in> set ?ps" "pol_request_id a = ?rid"
    "pol_status a = active" by simp_all
  have core: "\<exists>response led'.
            activate env settings uid request tier led = Inr (response, led')
          \<and> ar_activation_mode response = Some scheduled_mode
          \<and> ar_effective_at response = Some (pol_next_billing_at a)
          \<and> pol_status (ar_policy response) = scheduled
          \<and> pol_tier (ar_policy response) = tier
          \<and> pol_effective_at (ar_policy response) = pol_next_billing_at a
          \<and> policy_for active ?rid (led_policies led') = Some a
          \<and> ar_pricing response = q"
  proof (cases "\<exists>s. policy_for scheduled ?rid ?ps = Some s \<and> pol_tier s = tier")
    case True
    then obtain s where s: "policy_for scheduled ?rid ?ps = Some s" "pol_tier s = tier" by blast
    from policy_for_Some [OF s(1)] have s_mem: "s \<in> set ?ps" "pol_request_id s = ?rid"
      "pol_status s = scheduled" by simp_all
    from cons [rule_format, of a s] a_mem s_mem
    have eff: "pol_effective_at s = pol_next_billing_at a" by simp
    from activate_noop_scheduled [OF elig q a tier force s]
    have "activate env settings uid request tier led
          = Inr (unchanged_response s q scheduled_mode, led)" .
    with eff s s_mem a show ?thesis by (simp add: unchanged_response_def)
  next
    case False
    then have "\<And>s. policy_for scheduled ?rid ?ps = Some s \<Longrightarrow> pol_tier s \<noteq> tier" by blast
    from activate_schedules [OF elig q a tier force this]
    obtain response led' where act: "activate env settings uid request tier led
                                     = Inr (response, led')"
      and cr: "(response, led') = create_policy env uid request q scheduled
                 (pol_next_billing_at a) (\<lambda>s. s = scheduled)
                 (map_option pol_id (policy_for scheduled ?rid ?ps)) led"
      by (metis surj_pair)
    from create_scheduled_facts [OF cr] create_scheduled_keeps_active [OF cr a]
      quote_engine_tier [OF q] act
    show ?thesis by (simp add: new_policy_def)
  qed
  then obtain response led' where
    r: "activate env settings uid request tier led = Inr (response, led')"
       "ar_activation_mode response = Some scheduled_mode"
       "ar_effective_at response = Some (pol_next_billing_at a)"
       "pol_status (ar_policy response) = scheduled"
       "pol_tier (ar_policy response) = tier"
       "pol_effective_at (ar_policy response) = pol_next_billing_at a"
       "policy_for active ?rid (led_policies led') = Some a"
       "ar_pricing response = q"
    by blast
  have ui: "activationFeedback (handleActivateUntilReload formatDate formatCurrency (Ok response) st)
              = Some (insuranceTierLabels tier @ '' coverage scheduled at ''
                      @ formatCurrency (q_final_premium q)
                      @ '' per month. It will begin on ''
                      @ scheduleLabel formatDate (Some (pol_next_billing_at a)) @ ''. ''
                      @ (case activePolicyTier st of
                           Some t \<Rightarrow> insuranceTierLabels t @ '' coverage stays active until then.''
                         | None \<Rightarrow> ''Current coverage stays active until then.''))
            \<and> activationMode (handleActivateUntilReload formatDate formatCurrency (Ok response) st)
                = Some scheduled_mode
            \<and> activationError (handleActivateUntilReload formatDate formatCurrency (Ok response) st)
                = None"
    if sel: "selectedRequestId st \<noteq> []"
    using handleActivateUntilReload_ok [OF sel, of formatDate formatCurrency response]
      activationFeedbackText_scheduled [OF r(2), of formatDate formatCurrency "activePolicyTier st"]
      r(2,3,8) quote_engine_tier [OF q]
    by simp
  from r ui a_mem(3) show "\<exists>response led'.
            activate env settings uid request tier led = Inr (response, led')
          \<and> ar_activation_mode response = Some scheduled_mode
          \<and> ar_effective_at response = Some (pol_next_billing_at a)
          \<and> pol_status (ar_policy response) = scheduled
          \<and> pol_tier (ar_policy response) = tier
          \<and> pol_effective_at (ar_policy response) = pol_next_billing_at a
          \<and> policy_for active (req_id request) (led_policies led') = Some a
          \<and> pol_status a = active
          \<and> (selectedRequestId st \<noteq> [] \<longrightarrow>
                activationFeedback (handleActivateUntilReload formatDate formatCurrency (Ok response) st)
                  = Some (insuranceTierLabels tier @ '' coverage scheduled at ''
                          @ formatCurrency (q_final_premium q)
                          @ '' per month. It will begin on ''
                          @ scheduleLabel formatDate (Some (pol_next_billing_at a)) @ ''. ''
                          @ (case activePolicyTier st of
                               Some t \<Rightarrow> insuranceTierLabels t
                                         @ '' coverage stays active until then.''
                             | None \<Rightarrow> ''Current coverage stays active until then.''))
              \<and> activationMode (handleActivateUntilReload formatDate formatCurrency (Ok response) st)
                  = Some scheduled_mode
              \<and> activationError (handleActivateUntilReload formatDate formatCurrency (Ok response) st)
                  = None)"
    by blast
next
  show "quote st = Some qq \<and> quoteEligible st \<and> \<not> sameTierActive st
            \<and> \<not> sameTierScheduled st \<and> activationMode st = Some scheduled_mode
          \<longrightarrow> (\<exists>note. infoMessage formatDate st
                 = Some (''This change takes effect on your next billing date (''
                         @ scheduleLabel formatDate (effectiveAt st) @ ''). ''
                         @ (case activePolicyTier st of
                              Some t \<Rightarrow> insuranceTierLabels t @ '' coverage''
                            | None \<Rightarrow> ''Current coverage'')
                         @ '' stays active until then.'' @ note))"
    using infoMessage_scheduled [of st qq formatDate] by blast
qed


lemma quote_plus_eval:
  "quote_engine request_R plus_tier scenario_settings good 0 = Inr quote_plus"
  by (simp add: quote_C_eval quote_plus_def)


lemma policy_for_ledger_C:
  "policy_for active ''R'' (led_policies ledger_C) = Some basic_policy_R"
  by (simp add: policy_for_def ledger_C_def basic_policy_R_def)


lemma activate_C_response:
  "activate env_late_january scenario_settings ''u1'' request_R plus_tier ledger_C
   = Inr (schedule_response, ledger_C_scheduled)"
  using activate_C by (simp add: schedule_response_def quote_plus_def)

lemma overview_C_scheduled_maps:
  "policiesByRequest (Some overview_C_scheduled) ''R'' = Some basic_policy_R"
  "eligibleRequests (Some overview_C_scheduled) = [request_R]"
  by (simp_all add: policiesByRequest_def eligibleRequests_def policies_of_def requests_of_def
      overview_C_scheduled_def enrollment_overview_def ledger_C_scheduled_def
      basic_policy_R_def plus_policy_R_def request_R_def request_pending_def)

text \<open>
  Scenario C on the page: the state in which the reload of the overview leaves
  it.  The tier selection is back at \<open>basic\<close>, the feedback is gone, and the
  preview of \<open>basic\<close> reports the tier as the active one.
\<close>

lemma handleActivate_C:
  "selectedTier
     (handleActivate show_date show_usd (Ok schedule_response) (Ok overview_C_scheduled)
        (Ok preview_basic_again) (enrollment_state_C plus_tier)) = basic"
  "activationFeedback
     (handleActivate show_date show_usd (Ok schedule_response) (Ok overview_C_scheduled)
        (Ok preview_basic_again) (enrollment_state_C plus_tier)) = None"
  "infoMessage show_date
     (handleActivate show_date show_usd (Ok schedule_response) (Ok overview_C_scheduled)
        (Ok preview_basic_again) (enrollment_state_C plus_tier))
     = Some ''This tier is already active for the selected request.''"
proof -
  let ?st = "enrollment_state_C plus_tier"
  let ?end = "handleActivate show_date show_usd (Ok schedule_response) (Ok overview_C_scheduled)
                (Ok preview_basic_again) ?st"
  have sel: "selectedRequestId ?st \<noteq> []" "selectedRequestId ?st = ''R''"
    "selectedTier ?st = plus_tier"
    by (simp_all add: enrollment_state_C_def)
  have elig: "list_ex (\<lambda>request. req_id request = selectedRequestId ?st)
                (eligibleRequests (Some overview_C_scheduled))"
    by (simp add: overview_C_scheduled_maps sel request_R_def)
  have act: "policiesByRequest (Some overview_C_scheduled) (selectedRequestId ?st)
               = Some basic_policy_R"
    by (simp add: overview_C_scheduled_maps sel)
  have tier: "pol_tier basic_policy_R \<noteq> selectedTier ?st"
    by (simp add: basic_policy_R_def sel)
  from handleActivate_reload_resets [OF sel(1) elig act tier]
  show "selectedTier ?end = basic" and "activationFeedback ?end = None"
    by (simp_all add: basic_policy_R_def)
  have "selectedRequestId
          ((handleActivateUntilReload show_date show_usd (Ok schedule_response) ?st)
             \<lparr>overview := Some overview_C_scheduled, loading := False, activationSaving := False,
              selectedTier := pol_tier basic_policy_R,
              activePolicyTier := Some (pol_tier basic_policy_R),
              activationFeedback := None, activationError := None\<rparr>) \<noteq> []"
    using sel(1) by (simp add: handleActivateUntilReload_ok)
  from previewEffect_Ok [OF this, of preview_basic_again]
  have quoted: "quote ?end = Some quote_basic_again" "quoteEligible ?end"
    "activePolicyTier ?end = Some basic"
    unfolding handleActivate_reload_run [OF sel(1) elig act tier]
    by (simp_all add: preview_basic_again_def)
  then show "infoMessage show_date ?end
               = Some ''This tier is already active for the selected request.''"
    by (simp add: infoMessage_def sameTierActive_def quote_basic_again_def)
qed

theorem tier_change_is_scheduled_witness:
  "activate env_late_january scenario_settings ''u1'' request_R plus_tier ledger_C
     = Inr (schedule_response, ledger_C_scheduled)
   \<and> ar_activation_mode schedule_response = Some scheduled_mode
   \<and> ar_effective_at schedule_response = Some (pol_next_billing_at basic_policy_R)
   \<and> policy_for active ''R'' (led_policies ledger_C_scheduled) = Some basic_policy_R
   \<and> infoMessage show_date (enrollment_state_C plus_tier)
       = Some ''This change takes effect on your next billing date (2026-02-15). Basic coverage stays active until then.''
   \<and> activationFeedback
        (handleActivateUntilReload show_date show_usd (Ok schedule_response)
           (enrollment_state_C plus_tier))
       = Some ''Plus coverage scheduled at $350.00 per month. It will begin on 2026-02-15. Basic coverage stays active until then.''
   \<and> activationFeedback
        (handleActivate show_date show_usd (Ok schedule_response) (Ok overview_C_scheduled)
           (Ok preview_basic_again) (enrollment_state_C plus_tier))
       = None
   \<and> selectedTier
        (handleActivate show_date show_usd (Ok schedule_response) (Ok overview_C_scheduled)
           (Ok preview_basic_again) (enrollment_state_C plus_tier))
       = basic"
proof -
  have elig: "req_status request_R = approved \<or> req_status request_R = completed"
    by (simp add: request_R_simps)
  have q: "quote_engine request_R plus_tier scenario_settings (env_health_bucket env_late_january)
             (led_available_points ledger_C) = Inr quote_plus"
    by (simp add: env_late_january_def ledger_C_def quote_plus_eval)
  have a: "policy_for active (req_id request_R) (led_policies ledger_C) = Some basic_policy_R"
    by (simp add: request_R_simps policy_for_ledger_C)
  have tier: "pol_tier basic_policy_R \<noteq> plus_tier" by (simp add: basic_policy_R_def)
  have force: "\<not> env_force_immediate env_late_january" by (simp add: env_late_january_def)
  note t = tier_change_is_scheduled [OF reachable_ledger_C elig q a tier force,
      of "''u1''" "enrollment_state_C plus_tier" show_date show_usd quote_plus]
  have sel: "selectedRequestId (enrollment_state_C plus_tier) \<noteq> []"
    "activePolicyTier (enrollment_state_C plus_tier) = Some basic"
    "quote (enrollment_state_C plus_tier) = Some quote_plus"
    "quoteEligible (enrollment_state_C plus_tier)"
    "\<not> sameTierActive (enrollment_state_C plus_tier)"
    "\<not> sameTierScheduled (enrollment_state_C plus_tier)"
    "activationMode (enrollment_state_C plus_tier) = Some scheduled_mode"
    "effectiveAt (enrollment_state_C plus_tier) = Some ''2026-02-15T00:00:00Z''"
    "scheduledPolicyTier (enrollment_state_C plus_tier) = None"
    by (simp_all add: enrollment_state_C_def sameTierActive_def sameTierScheduled_def
        quote_plus_def)
  have info: "infoMessage show_date (enrollment_state_C plus_tier)
       = Some ''This change takes effect on your next billing date (2026-02-15). Basic coverage stays active until then.''"
    by (simp add: infoMessage_def sel scheduleLabel_def show_date_def)
  from t have "activate env_late_january scenario_settings ''u1'' request_R plus_tier ledger_C
     = Inr (schedule_response, ledger_C_scheduled)
   \<and> ar_activation_mode schedule_response = Some scheduled_mode
   \<and> ar_effective_at schedule_response = Some (pol_next_billing_at basic_policy_R)
   \<and> policy_for active ''R'' (led_policies ledger_C_scheduled) = Some basic_policy_R
   \<and> infoMessage show_date (enrollment_state_C plus_tier)
       = Some ''This change takes effect on your next billing date (2026-02-15). Basic coverage stays active until then.''
   \<and> activationFeedback
        (handleActivateUntilReload show_date show_usd (Ok schedule_response)
           (enrollment_state_C plus_tier))
       = Some ''Plus coverage scheduled at $350.00 per month. It will begin on 2026-02-15. Basic coverage stays active until then.''"
    by (simp add: activate_C_response request_R_simps sel info scheduleLabel_def show_date_def
        show_usd_def quote_plus_def basic_policy_R_def)
  with handleActivate_C(1,2) show ?thesis by (simp only: simp_thms)
qed





section \<open>Properties of the quote engine\<close>




text \<open>
  No other choice of the redeemed points would do: a discount of 22 is not a
  whole number of units of 5.
\<close>

lemma no_whole_units_for_22:
  assumes "q_discount_value_usd q = 22"
  shows "\<not> (whole_units settings_22 q \<and> points_match_discount settings_22 q)"
proof
  assume h: "whole_units settings_22 q \<and> points_match_discount settings_22 q"
  let ?r = "q_points_redeemed q / 100"
  from h obtain n :: int where n: "?r = of_int n"
    by (auto simp: whole_units_def settings_22_def scenario_settings_def Let_def)
  from h assms have "?r * 5 = 22"
    by (simp add: points_match_discount_def settings_22_def scenario_settings_def)
  with n have "real_of_int (n * 5) = real_of_int 22" by simp
  then have "n * 5 = 22" by (simp only: of_int_eq_iff)
  then show False by presburger
qed



text \<open>
  With positive points and dollars per unit, as the pricing form keeps them, the
  points redeemed are within the available balance and worth at most the
  discount.
\<close>

lemma quote_points_bounds:
  assumes quote: "quote_engine request tier settings bucket availablePoints = Inr q"
    and ppu: "0 < points_per_discount_unit (points_discount settings)"
    and dpu: "0 < discount_per_unit (points_discount settings)"
  shows "q_points_redeemed q \<le> availablePoints"
    and "q_points_redeemed q / points_per_discount_unit (points_discount settings)
           * discount_per_unit (points_discount settings) \<le> q_discount_value_usd q"
proof -
  let ?P = "points_per_discount_unit (points_discount settings)"
  let ?D = "discount_per_unit (points_discount settings)"
  let ?u = "units_redeemable settings availablePoints"
  let ?m = "q_monthly_premium q"
  let ?d = "q_discount_value_usd q"
  from quote have disc: "?d = min ?m (of_int ?u * ?D)"
    and red: "q_points_redeemed q
              = of_int (if ?m < of_int ?u * ?D then \<lfloor>?d / ?D\<rfloor> else ?u) * ?P"
    by (auto simp: quote_engine_def Let_def split: if_splits)
  have applied: "(if ?m < of_int ?u * ?D then \<lfloor>?d / ?D\<rfloor> else ?u) = \<lfloor>?d / ?D\<rfloor>"
  proof (cases "?m < of_int ?u * ?D")
    case True
    then show ?thesis by simp
  next
    case False
    with disc have "?d = of_int ?u * ?D" by simp
    with dpu False show ?thesis by simp
  qed
  with red have points: "q_points_redeemed q = of_int \<lfloor>?d / ?D\<rfloor> * ?P" by simp
  have "?d \<le> of_int ?u * ?D" using disc by simp
  with dpu have "?d / ?D \<le> of_int ?u" by (simp add: pos_divide_le_eq)
  then have "\<lfloor>?d / ?D\<rfloor> \<le> ?u" by (simp add: floor_le_iff)
  then have "of_int \<lfloor>?d / ?D\<rfloor> * ?P \<le> of_int ?u * ?P"
    using ppu by simp
  also have "of_int ?u \<le> availablePoints / ?P"
    by (simp add: units_redeemable_def)
  then have "of_int ?u * ?P \<le> availablePoints"
    using ppu by (simp add: pos_le_divide_eq)
  finally show "q_points_redeemed q \<le> availablePoints" by (simp add: points)
  have worth: "q_points_redeemed q / ?P * ?D = of_int \<lfloor>?d / ?D\<rfloor> * ?D"
    using ppu by (simp add: points)
  have le: "of_int \<lfloor>?d / ?D\<rfloor> * ?D \<le> ?d"
    using of_int_floor_le [of "?d / ?D"]
      pos_le_divide_eq [OF dpu, of "of_int \<lfloor>?d / ?D\<rfloor>" ?d]
    by blast
  show "q_points_redeemed q / ?P * ?D \<le> ?d" unfolding worth by (rule le)
qed


section \<open>Properties of the admin pricing form\<close>

lemma positive_integer_of_int: "1 \<le> n \<Longrightarrow> positive_integer (of_int n)"
  by (simp add: positive_integer_def)

lemma coerce_of_int: "max 1 (js_round v) = of_int (max 1 (round v))"
  by (simp add: js_round_def max_def)

lemma positive_integer_coerce: "positive_integer (max 1 (js_round v))"
  unfolding coerce_of_int by (rule positive_integer_of_int) simp

lemma applyEdit_Some:
  "\<exists>d1. applyEdit e (Some d) = Some d1
        \<and> (points_per_discount_unit (points_discount d1)
             = points_per_discount_unit (points_discount d)
           \<or> positive_integer (points_per_discount_unit (points_discount d1)))"
proof (cases e)
  case (EditField key v)
  then show ?thesis by (cases key) simp_all
next
  case (EditInsurance tier v)
  then show ?thesis by (simp add: changeInsuranceField_def)
next
  case (EditBucket bucket v)
  then show ?thesis by (simp add: changeBucketField_def)
next
  case (EditPointsPerUnit v)
  then show ?thesis by (simp add: positive_integer_coerce)
next
  case (EditDiscountPerUnit v)
  then show ?thesis by simp
qed

lemma applyEdit_None: "applyEdit e None = None"
proof (cases e)
  case (EditField key v)
  then show ?thesis by (cases key) simp_all
qed (simp_all add: changeInsuranceField_def changeBucketField_def)

lemma fold_applyEdit_preserves:
  "positive_integer (points_per_discount_unit (points_discount d))
   \<Longrightarrow> \<exists>d'. fold applyEdit edits (Some d) = Some d'
          \<and> positive_integer (points_per_discount_unit (points_discount d'))"
proof (induction edits arbitrary: d)
  case Nil
  then show ?case by simp
next
  case (Cons e edits)
  from applyEdit_Some [of e d] obtain d1 where d1: "applyEdit e (Some d) = Some d1"
    and "points_per_discount_unit (points_discount d1)
           = points_per_discount_unit (points_discount d)
         \<or> positive_integer (points_per_discount_unit (points_discount d1))" by blast
  with Cons.prems have "positive_integer (points_per_discount_unit (points_discount d1))"
    by auto
  from Cons.IH [OF this] d1 show ?case by simp
qed

lemma fold_applyEdit_after_edit:
  "EditPointsPerUnit v \<in> set edits
   \<Longrightarrow> \<exists>d'. fold applyEdit edits (Some d) = Some d'
          \<and> positive_integer (points_per_discount_unit (points_discount d'))"
proof (induction edits arbitrary: d)
  case Nil
  then show ?case by simp
next
  case (Cons e edits)
  show ?case
  proof (cases "e = EditPointsPerUnit v")
    case True
    let ?d1 = "d\<lparr>points_discount := (points_discount d)\<lparr>points_per_discount_unit := max 1 (js_round v)\<rparr>\<rparr>"
    have "positive_integer (points_per_discount_unit (points_discount ?d1))"
      by (simp add: positive_integer_coerce)
    from fold_applyEdit_preserves [OF this, of edits] True show ?thesis by simp
  next
    case False
    with Cons.prems have mem: "EditPointsPerUnit v \<in> set edits" by simp
    from applyEdit_Some [of e d] obtain d1 where d1: "applyEdit e (Some d) = Some d1" by blast
    from Cons.IH [OF mem, of d1] d1 show ?thesis by simp
  qed
qed

lemma toFixed6_of_int: "toFixed6 (of_int n) = of_int n"
proof -
  have "real_of_int n * 1000000 = of_int (n * 1000000)" by simp
  then have "round (real_of_int n * 1000000) = n * 1000000" by (simp only: round_of_int)
  then show ?thesis by (simp add: toFixed6_def)
qed

lemma commitValue_points_field:
  assumes "commitValue (Some 100) 100 cur raw = Some x"
  shows "100 \<le> x \<and> positive_integer x \<and> max 1 (js_round x) = x"
proof -
  have "\<exists>n::int. 100 \<le> n \<and> x = of_int n"
  proof (cases raw)
    case EmptyText
    with assms have "x = of_int 100" by (simp add: commitValue_def)
    then show ?thesis by (intro exI [of _ 100]) simp
  next
    case NotFinite
    with assms show ?thesis by (simp add: commitValue_def)
  next
    case (Parsed parsed)
    let ?next1 = "if parsed < 100 then 100 else parsed"
    let ?k = "round ((?next1 - 100) / 100)"
    have "0 \<le> (?next1 - 100) / 100" by simp
    then have "round (0::real) \<le> ?k" by (rule round_mono)
    then have k: "0 \<le> ?k" by simp
    have "100 + real_of_int ?k * 100 = of_int (100 + ?k * 100)" by simp
    then have "toFixed6 (100 + js_round ((?next1 - 100) / 100) * 100) = of_int (100 + ?k * 100)"
      unfolding js_round_def by (simp only: toFixed6_of_int)
    with assms Parsed have "x = of_int (100 + ?k * 100)"
      by (simp add: commitValue_def Let_def split: if_splits)
    with k show ?thesis by (intro exI [of _ "100 + ?k * 100"]) simp
  qed
  then obtain n :: int where n: "100 \<le> n" "x = of_int n" by blast
  then have "positive_integer x" by (simp add: positive_integer_of_int)
  moreover from n have "max 1 (js_round x) = x" by (simp add: js_round_def)
  ultimately show ?thesis using n by simp
qed

text \<open>
  Claim C10.  Every edit of the ``Points per redemption'' field stores
  \<open>Math.max(1, Math.round(value))\<close>, a positive whole number, in the draft; no edit
  of another field changes it, so that after any sequence of edits that starts
  from a positive whole number or contains an edit of the field the draft holds a
  positive whole number; and the field of the page with the text input only
  commits whole numbers from 100 on, which the coercion leaves as they are.  The
  divisor of the quote engine is therefore never set to zero, a negative number or
  a fraction by the form.
\<close>

theorem points_per_unit_positive_integer:
  "positive_integer (max 1 (js_round v))
   \<and> map_option (\<lambda>d'. points_per_discount_unit (points_discount d'))
        (applyEdit (EditPointsPerUnit v) (Some d)) = Some (max 1 (js_round v))
   \<and> applyEdit e None = None
   \<and> (positive_integer (points_per_discount_unit (points_discount d))
        \<or> EditPointsPerUnit v \<in> set edits \<longrightarrow>
        (\<exists>d'. fold applyEdit edits (Some d) = Some d'
              \<and> positive_integer (points_per_discount_unit (points_discount d'))))
   \<and> (commitValue (Some 100) 100 cur raw = Some x \<longrightarrow>
        100 \<le> x \<and> positive_integer x \<and> max 1 (js_round x) = x)"
proof (intro conjI impI)
  show "positive_integer (max 1 (js_round v))" by (rule positive_integer_coerce)
  show "map_option (\<lambda>d'. points_per_discount_unit (points_discount d'))
          (applyEdit (EditPointsPerUnit v) (Some d)) = Some (max 1 (js_round v))"
    by simp
  show "applyEdit e None = None" by (rule applyEdit_None)
  show "\<exists>d'. fold applyEdit edits (Some d) = Some d'
             \<and> positive_integer (points_per_discount_unit (points_discount d'))"
    if "positive_integer (points_per_discount_unit (points_discount d))
        \<or> EditPointsPerUnit v \<in> set edits"
    using that fold_applyEdit_preserves [of d edits] fold_applyEdit_after_edit [of v edits d]
    by blast
  show "100 \<le> x" "positive_integer x" "max 1 (js_round x) = x"
    if "commitValue (Some 100) 100 cur raw = Some x"
    using commitValue_points_field [OF that] by simp_all
qed

theorem points_per_unit_positive_integer_witness:
  "map_option (\<lambda>d'. points_per_discount_unit (points_discount d'))
     (applyEdit (EditPointsPerUnit 0) (Some scenario_settings)) = Some 1
   \<and> map_option (\<lambda>d'. points_per_discount_unit (points_discount d'))
       (fold applyEdit admin_edits (Some scenario_settings)) = Some 3
   \<and> commitValue (Some 100) 100 100 (Parsed 250) = Some 300
   \<and> commitValue (Some 100) 100 300 (Parsed 7) = Some 100
   \<and> positive_integer 300"
  using points_per_unit_positive_integer [of 0 scenario_settings "EditPointsPerUnit 0"
          admin_edits 100 "Parsed 250" 300]
  by (simp add: admin_edits_def js_round_def commitValue_def toFixed6_def round_def
      positive_integer_def)

end
